theory Spec2Isabelle
  imports Complex_Main "HOL-Library.AList"
begin

section \<open>Strings\<close>

text \<open>
  A JavaScript string is modelled as a \<^typ>\<open>string\<close> whose characters stand for code units
  below 256 (the Latin-1 range), so that \<open>length\<close> is the \<open>.length\<close> of the source.
  \<open>toLowerCase\<close> maps \<open>A\<close>..\<open>Z\<close> and the upper-case letters of Latin-1 to their lower-case
  forms and leaves every other code unit alone.
\<close>

definition lower_char :: "char \<Rightarrow> char" where
  "lower_char c =
     (let n = (of_char c :: nat)
      in if (65 \<le> n \<and> n \<le> 90) \<or> (192 \<le> n \<and> n \<le> 214) \<or> (216 \<le> n \<and> n \<le> 222)
         then char_of (n + 32) else c)"

definition toLowerCase :: "string \<Rightarrow> string" where
  "toLowerCase s = map lower_char s"

text \<open>\<open>s.startsWith(w)\<close> and \<open>s.includes(w)\<close>.\<close>

fun startsWith :: "string \<Rightarrow> string \<Rightarrow> bool" where
  "startsWith s [] = True"
| "startsWith [] (w # ws) = False"
| "startsWith (c # cs) (w # ws) = (c = w \<and> startsWith cs ws)"

fun str_includes :: "string \<Rightarrow> string \<Rightarrow> bool" where
  "str_includes [] w = (w = [])"
| "str_includes (c # cs) w = (startsWith (c # cs) w \<or> str_includes cs w)"

text \<open>\<open>keywords.some(keyword => text.includes(keyword))\<close>.\<close>

definition some_included :: "string \<Rightarrow> string list \<Rightarrow> bool" where
  "some_included text keywords = list_ex (\<lambda>keyword. str_includes text keyword) keywords"

text \<open>\<open>parts.join(' ')\<close>.\<close>

fun join_space :: "string list \<Rightarrow> string" where
  "join_space [] = []"
| "join_space [p] = p"
| "join_space (p # q # ps) = p @ '' '' @ join_space (q # ps)"

text \<open>
  A JavaScript \<open>Set\<close> of strings keeps its elements in insertion order and ignores the
  insertion of an element it already has: a duplicate-free list, extended at the end.
\<close>

definition set_add :: "string list \<Rightarrow> string \<Rightarrow> string list" where
  "set_add s x = (if x \<in> set s then s else s @ [x])"

section \<open>Doubles\<close>

text \<open>
  A JavaScript number is an IEEE double. A finite double is modelled as the real number it
  denotes, and every arithmetic operation of the source as the exact operation followed by
  \<open>dbl\<close>, rounding to the nearest double, ties to even: \<open>a * b\<close> is \<open>dbl (a * b)\<close>, the
  literal \<open>0.8\<close> is \<open>dbl 0.8\<close>. \<open>expo a\<close> is the binary exponent of a positive \<open>a\<close>, between
  -1022 (where the subnormal numbers share the spacing of the smallest normal ones) and
  1023; the significand has 53 bits. Overflow to infinity and NaN are not modelled: the
  numbers of this service are scores between 0 and 1.
\<close>

definition round_even :: "real \<Rightarrow> int" where
  "round_even q =
     (let m = \<lfloor>q\<rfloor>; f = q - of_int m
      in if f < 1 / 2 then m else if f > 1 / 2 then m + 1 else if even m then m else m + 1)"

text \<open>The search for the exponent, downwards from \<open>e\<close> with \<open>p = 2 powi e\<close>, and upwards.\<close>

primrec exp_down :: "nat \<Rightarrow> int \<Rightarrow> real \<Rightarrow> real \<Rightarrow> int" where
  "exp_down 0 e p a = e"
| "exp_down (Suc k) e p a = (if p \<le> a then e else exp_down k (e - 1) (p / 2) a)"

primrec exp_up :: "nat \<Rightarrow> int \<Rightarrow> real \<Rightarrow> real \<Rightarrow> int" where
  "exp_up 0 e p a = e"
| "exp_up (Suc k) e p a = (if a < 2 * p then e else exp_up k (e + 1) (2 * p) a)"

definition expo :: "real \<Rightarrow> int" where
  "expo a = (if a < 1 then exp_down 1021 (- 1) (1 / 2) a else exp_up 1024 0 1 a)"

definition dbl :: "real \<Rightarrow> real" where
  "dbl x =
     (if x = 0 then 0
      else let u = 2 powi (expo \<bar>x\<bar> - 52)
           in sgn x * of_int (round_even (\<bar>x\<bar> / u)) * u)"

section \<open>The offline NLP service\<close>

text \<open>
  The service parses a text with the compromise library and reads the parsed document
  through its views. The library is not part of the repository: a parsed document is the
  record of what its views return (\<open>doc.text()\<close>, and the \<open>text\<close> fields of
  \<open>doc.nouns().json()\<close>, \<open>doc.people().json()\<close> and so on), and the parser
  \<open>nlp\<close> is a parameter of every function that calls it.
\<close>

record nlp_doc =
  doc_text :: string
  doc_nouns :: "string list"
  doc_adjectives :: "string list"
  doc_people :: "string list"
  doc_places :: "string list"
  doc_organizations :: "string list"
  doc_money :: "string list"
  doc_dates :: "string list"

datatype Sentiment = positive | negative | neutral

record ExtractedEntities =
  people :: "string list"
  places :: "string list"
  organizations :: "string list"
  money :: "string list"
  dates :: "string list"
  topics :: "string list"
  sentiment :: Sentiment
  categories :: "string list"

record DateRange =
  range_start :: "string option"
  range_end :: "string option"

record Amount =
  amount_min :: "int option"
  amount_max :: "int option"

record Filters =
  filter_type :: "string option"
  filter_location :: "string option"
  filter_person :: "string option"
  filter_dateRange :: "DateRange option"
  filter_category :: "string option"
  filter_amount :: "Amount option"

record SearchQuery =
  originalQuery :: string
  entities :: ExtractedEntities
  searchTerms :: "string list"
  filters :: Filters

definition extractPeople :: "nlp_doc \<Rightarrow> string list" where
  "extractPeople doc = filter (\<lambda>name. length name > 1) (doc_people doc)"

definition extractPlaces :: "nlp_doc \<Rightarrow> string list" where
  "extractPlaces doc = filter (\<lambda>name. length name > 1) (doc_places doc)"

definition extractOrganizations :: "nlp_doc \<Rightarrow> string list" where
  "extractOrganizations doc = filter (\<lambda>name. length name > 1) (doc_organizations doc)"

definition extractMoney :: "nlp_doc \<Rightarrow> string list" where
  "extractMoney doc = doc_money doc"

definition extractDates :: "nlp_doc \<Rightarrow> string list" where
  "extractDates doc = doc_dates doc"

subsection \<open>Topics\<close>

definition travelKeywords :: "string list" where
  "travelKeywords = [''travel'', ''trip'', ''vacation'', ''journey'', ''adventure'', ''explore'',
     ''visit'', ''tour'']"

definition foodKeywords :: "string list" where
  "foodKeywords = [''food'', ''restaurant'', ''meal'', ''cuisine'', ''dining'', ''eat'', ''taste'',
     ''cook'']"

definition cultureKeywords :: "string list" where
  "cultureKeywords = [''culture'', ''museum'', ''temple'', ''church'', ''monument'', ''art'',
     ''history'']"

definition natureKeywords :: "string list" where
  "natureKeywords = [''nature'', ''mountain'', ''beach'', ''forest'', ''park'', ''hiking'',
     ''outdoor'']"

text \<open>
  The four keyword arrays are visited in order, each with the label at its index in
  \<open>['travel', 'food', 'culture', 'nature']\<close>; the labels are collected in a \<open>Set\<close>.
\<close>

definition topicTable :: "(string list \<times> string) list" where
  "topicTable = [(travelKeywords, ''travel''), (foodKeywords, ''food''),
     (cultureKeywords, ''culture''), (natureKeywords, ''nature'')]"

definition extractTopics :: "nlp_doc \<Rightarrow> string list" where
  "extractTopics doc =
     (let text = toLowerCase (doc_text doc)
      in fold (\<lambda>(keywords, label) topics.
                 if some_included text keywords then set_add topics label else topics)
           topicTable [])"

subsection \<open>Sentiment\<close>

definition positiveWords :: "string list" where
  "positiveWords = [''amazing'', ''great'', ''wonderful'', ''beautiful'', ''love'', ''perfect'',
     ''excellent'', ''fantastic'', ''awesome'', ''good'', ''best'', ''incredible'']"

definition negativeWords :: "string list" where
  "negativeWords = [''bad'', ''terrible'', ''awful'', ''horrible'', ''hate'', ''worst'',
     ''disappointing'', ''poor'', ''sad'', ''angry'']"

definition analyzeSentiment :: "nlp_doc \<Rightarrow> Sentiment" where
  "analyzeSentiment doc =
     (let text = toLowerCase (doc_text doc);
          positiveScore = length (filter (\<lambda>word. str_includes text word) positiveWords);
          negativeScore = length (filter (\<lambda>word. str_includes text word) negativeWords)
      in if positiveScore > negativeScore then positive
         else if negativeScore > positiveScore then negative
         else neutral)"

subsection \<open>Categories\<close>

text \<open>\<open>Object.entries(categoryMap)\<close>, in the order the object literal lists its keys.\<close>

definition categoryMap :: "(string \<times> string list) list" where
  "categoryMap =
     [(''food'', [''food'', ''restaurant'', ''meal'', ''eat'', ''cook'', ''taste'', ''cuisine'', ''dish'']),
      (''travel'', [''travel'', ''trip'', ''vacation'', ''journey'', ''flight'', ''hotel'', ''booking'']),
      (''culture'', [''museum'', ''temple'', ''church'', ''monument'', ''art'', ''history'', ''culture'']),
      (''nature'', [''nature'', ''mountain'', ''beach'', ''forest'', ''park'', ''hiking'', ''outdoor'']),
      (''adventure'', [''adventure'', ''explore'', ''expedition'', ''trekking'', ''climbing'', ''extreme'']),
      (''entertainment'', [''movie'', ''show'', ''concert'', ''festival'', ''party'', ''music'', ''dance'']),
      (''shopping'', [''shop'', ''buy'', ''purchase'', ''market'', ''store'', ''mall'', ''souvenir'']),
      (''transport'', [''transport'', ''bus'', ''train'', ''taxi'', ''uber'', ''drive'', ''walk''])]"

definition categorizeContent :: "nlp_doc \<Rightarrow> string list" where
  "categorizeContent doc =
     (let text = toLowerCase (doc_text doc)
      in fold (\<lambda>(category, keywords) categories.
                 if some_included text keywords then categories @ [category] else categories)
           categoryMap [])"

text \<open>The controlled vocabulary of the specification.\<close>

definition vocabulary :: "string list" where
  "vocabulary = [''travel'', ''food'', ''culture'', ''nature'', ''adventure'', ''entertainment'',
     ''shopping'', ''transport'']"

subsection \<open>Entities, search terms, filters\<close>

definition extractEntities :: "(string \<Rightarrow> nlp_doc) \<Rightarrow> string \<Rightarrow> ExtractedEntities" where
  "extractEntities nlp text =
     (let doc = nlp text
      in \<lparr> people = extractPeople doc,
           places = extractPlaces doc,
           organizations = extractOrganizations doc,
           money = extractMoney doc,
           dates = extractDates doc,
           topics = extractTopics doc,
           sentiment = analyzeSentiment doc,
           categories = categorizeContent doc \<rparr>)"

definition extractSearchTerms :: "nlp_doc \<Rightarrow> string list" where
  "extractSearchTerms doc =
     (let terms = fold (\<lambda>noun terms. if length noun > 2 then set_add terms (toLowerCase noun) else terms)
                    (doc_nouns doc) []
      in fold (\<lambda>adj terms. if length adj > 2 then set_add terms (toLowerCase adj) else terms)
           (doc_adjectives doc) terms)"

text \<open>\<open>Object.entries(typeKeywords)\<close>, in the order of the object literal.\<close>

definition typeKeywords :: "(string \<times> string) list" where
  "typeKeywords = [(''temple'', ''culture''), (''restaurant'', ''food''), (''museum'', ''culture''),
     (''hotel'', ''accommodation''), (''flight'', ''transport'')]"

text \<open>
  The two date filters read the system clock: \<open>lastWeek\<close> and \<open>thisMonth\<close> are the ISO
  strings the source computes from \<open>new Date()\<close> (seven days back, and the first day of the
  month), taken as parameters.
\<close>

record clock_dates =
  lastWeek :: string
  thisMonth :: string

definition extractFilters :: "clock_dates \<Rightarrow> nlp_doc \<Rightarrow> string \<Rightarrow> Filters" where
  "extractFilters clk doc query =
     (let text = toLowerCase query;
          f0 = \<lparr> filter_type = None, filter_location = None, filter_person = None,
                 filter_dateRange = None, filter_category = None, filter_amount = None \<rparr>;
          places = extractPlaces doc;
          f1 = (if length places > 0 then f0\<lparr>filter_location := Some (hd places)\<rparr> else f0);
          people = extractPeople doc;
          f2 = (if length people > 0 then f1\<lparr>filter_person := Some (hd people)\<rparr> else f1);
          f3 = (if str_includes text ''expensive'' \<or> str_includes text ''costly''
                then f2\<lparr>filter_amount := Some \<lparr>amount_min = Some 50, amount_max = None\<rparr>\<rparr> else f2);
          f4 = (if str_includes text ''cheap'' \<or> str_includes text ''budget''
                then f3\<lparr>filter_amount := Some \<lparr>amount_min = None, amount_max = Some 20\<rparr>\<rparr> else f3);
          f5 = (if str_includes text ''last week''
                then f4\<lparr>filter_dateRange := Some \<lparr>range_start = Some (lastWeek clk), range_end = None\<rparr>\<rparr>
                else f4);
          f6 = (if str_includes text ''this month''
                then f5\<lparr>filter_dateRange := Some \<lparr>range_start = Some (thisMonth clk), range_end = None\<rparr>\<rparr>
                else f5)
      in fold (\<lambda>(keyword, type) f. if str_includes text keyword then f\<lparr>filter_type := Some type\<rparr> else f)
           typeKeywords f6)"

definition parseSearchQuery :: "clock_dates \<Rightarrow> (string \<Rightarrow> nlp_doc) \<Rightarrow> string \<Rightarrow> SearchQuery" where
  "parseSearchQuery clk nlp query =
     (let doc = nlp query
      in \<lparr> originalQuery = query,
           entities = extractEntities nlp query,
           searchTerms = extractSearchTerms doc,
           filters = extractFilters clk doc query \<rparr>)"

subsection \<open>Tags\<close>

text \<open>
  \<open>generateTags(text, type?)\<close>: the optional \<open>type\<close> is \<open>None\<close> when the argument is
  missing; \<open>if (type)\<close> also skips the empty string.
\<close>

definition generateTags :: "(string \<Rightarrow> nlp_doc) \<Rightarrow> string \<Rightarrow> string option \<Rightarrow> string list" where
  "generateTags nlp text type =
     (let doc = nlp text;
          tags0 = fold (\<lambda>noun tags. if length noun > 2 \<and> length noun < 20
                                      then set_add tags (toLowerCase noun) else tags)
                    (doc_nouns doc) [];
          tags1 = fold (\<lambda>topic tags. set_add tags topic) (extractTopics doc) tags0;
          tags2 = (case type of None \<Rightarrow> tags1
                   | Some t \<Rightarrow> if t \<noteq> [] then set_add tags1 t else tags1);
          tags3 = fold (\<lambda>category tags. set_add tags category) (categorizeContent doc) tags2
      in take 10 tags3)"

section \<open>The enhanced search service\<close>

subsection \<open>Records, results and options\<close>

text \<open>
  A \<open>SearchableItem\<close> as the interface declares it; an optional field is \<open>None\<close> when the
  property is missing. \<open>tags\<close> is \<open>None\<close> when the stored value is not an array (the source
  tests \<open>Array.isArray\<close>), \<open>item_type\<close> is the field \<open>_type\<close>, and \<open>searchableText\<close> is the
  field the index builder adds.
\<close>

record SearchableItem =
  item_id :: string
  title :: "string option"
  name :: "string option"
  description :: "string option"
  content :: "string option"
  location :: "string option"
  tags :: "string list option"
  item_type :: string
  createdAt :: string
  updatedAt :: string
  searchableText :: "string option"

text \<open>
  An \<open>EnhancedSearchResult\<close> spreads the fields of its item and adds \<open>_score\<close>,
  \<open>_matchedFields\<close> and \<open>_snippet\<close>; here the item is kept as one field. Scores,
  distances and thresholds are doubles.
\<close>

record EnhancedSearchResult =
  res_item :: SearchableItem
  score :: real
  matchedFields :: "string list"
  snippet :: "string option"

record SearchOptions =
  opt_modules :: "string list option"
  opt_limit :: "int option"
  opt_threshold :: "real option"

definition no_options :: SearchOptions where
  "no_options = \<lparr> opt_modules = None, opt_limit = None, opt_threshold = None \<rparr>"

text \<open>
  What Fuse.js returns for one hit: the item, its distance \<open>score\<close> (best is 0) and the
  keys of its \<open>matches\<close>.
\<close>

record FuseResult =
  fr_item :: SearchableItem
  fr_score :: "real option"
  fr_matches :: "string option list option"

datatype error = Error string

text \<open>
  The state of the service. The FlexSearch document index is \<open>null\<close> or the documents
  added to it; \<open>fuseInstances\<close> is a JavaScript \<open>Map\<close> from store name to the Fuse
  instance of that store, kept as an association list in insertion order, a Fuse instance
  being the list of items it was built from.
\<close>

record index_state =
  searchIndex :: "SearchableItem list option"
  fuseInstances :: "(string \<times> SearchableItem list) list"
  lastIndexUpdate :: int

text \<open>
  What the service reaches outside itself: the NLP parser, the clock (\<open>Date.now()\<close> and
  the dates derived from it), \<open>database.getAll\<close>, which returns the items of a store or
  throws, the search of a Fuse instance (items, query, limit), and whether FlexSearch's
  \<open>add\<close> throws on a document.
\<close>

record env =
  nlp :: "string \<Rightarrow> nlp_doc"
  clock :: clock_dates
  now :: int
  getAll :: "string \<Rightarrow> error + SearchableItem list"
  fuse_search :: "SearchableItem list \<Rightarrow> string \<Rightarrow> int \<Rightarrow> FuseResult list"
  flex_add_throws :: "SearchableItem \<Rightarrow> bool"

definition indexUpdateInterval :: int where
  "indexUpdateInterval = 5 * 60 * 1000"

text \<open>\<open>a || b\<close> on an optional string: the empty string is falsy.\<close>

fun or_str :: "string option \<Rightarrow> string \<Rightarrow> string" where
  "or_str None d = d"
| "or_str (Some s) d = (if s = [] then d else s)"

subsection \<open>Snippets\<close>

text \<open>\<open>s.split(' ')\<close>: the pieces between single separators, empty pieces included.\<close>

fun split_on :: "char \<Rightarrow> string \<Rightarrow> string list" where
  "split_on d [] = [[]]"
| "split_on d (c # cs) =
     (if c = d then [] # split_on d cs
      else (case split_on d cs of [] \<Rightarrow> [[c]] | w # ws \<Rightarrow> (c # w) # ws))"

definition is_terminator :: "char \<Rightarrow> bool" where
  "is_terminator c = (c = CHR ''.'' \<or> c = CHR ''!'' \<or> c = CHR ''?'')"

text \<open>\<open>content.split(/[.!?]+/)\<close>: a maximal run of terminators is one separator.\<close>

function split_sentences :: "string \<Rightarrow> string list" where
  "split_sentences [] = [[]]"
| "split_sentences (c # cs) =
     (if is_terminator c then [] # split_sentences (dropWhile is_terminator cs)
      else (case split_sentences cs of [] \<Rightarrow> [[c]] | w # ws \<Rightarrow> (c # w) # ws))"
  by pat_completeness auto
termination
  by (relation "measure length") (auto simp: less_Suc_eq_le length_dropWhile_le)

text \<open>\<open>s.trim()\<close>: the white space of the Latin-1 range is tab to carriage return, space and
  the no-break space.\<close>

definition is_space :: "char \<Rightarrow> bool" where
  "is_space c = (let n = (of_char c :: nat) in (9 \<le> n \<and> n \<le> 13) \<or> n = 32 \<or> n = 160)"

definition trim :: "string \<Rightarrow> string" where
  "trim s = rev (dropWhile is_space (rev (dropWhile is_space s)))"

definition countMatches :: "string list \<Rightarrow> string \<Rightarrow> nat" where
  "countMatches queryWords sentence =
     length (filter (\<lambda>word. str_includes (toLowerCase sentence) word) queryWords)"

text \<open>The \<open>forEach\<close> over the sentences, carrying \<open>(bestSentence, maxMatches)\<close>.\<close>

definition bestSentence :: "string \<Rightarrow> string \<Rightarrow> string" where
  "bestSentence text query =
     (let queryWords = split_on CHR '' '' (toLowerCase query);
          sentences = split_sentences text
      in fst (fold (\<lambda>sentence (best, maxMatches).
                      let matches = countMatches queryWords sentence
                      in if matches > maxMatches then (sentence, matches) else (best, maxMatches))
                sentences ([], 0)))"

definition snippetContent :: "SearchableItem \<Rightarrow> string" where
  "snippetContent item =
     or_str (description item) (or_str (content item) (or_str (title item) (or_str (name item) [])))"

definition generateSnippet :: "SearchableItem \<Rightarrow> string \<Rightarrow> string" where
  "generateSnippet item query =
     (let best = bestSentence (snippetContent item) query
      in take 150 (trim best) @ (if length best > 150 then ''...'' else []))"

subsection \<open>Building the index\<close>

definition stores :: "string list" where
  "stores = [''travelPins'', ''people'', ''journalEntries'', ''expenses'', ''checklistItems'',
     ''learningEntries'', ''foodEntries'', ''gearItems'']"

definition createSearchableText :: "SearchableItem \<Rightarrow> string" where
  "createSearchableText item =
     (let parts = [or_str (title item) [], or_str (name item) [], or_str (description item) [],
                   or_str (content item) [], or_str (location item) []]
                  @ (case tags item of None \<Rightarrow> [] | Some ts \<Rightarrow> ts)
      in toLowerCase (join_space (filter (\<lambda>part. part \<noteq> []) parts)))"

definition processItem :: "string \<Rightarrow> SearchableItem \<Rightarrow> SearchableItem" where
  "processItem storeName item =
     item\<lparr> item_type := storeName, searchableText := Some (createSearchableText item) \<rparr>"

text \<open>\<open>this.searchIndex.add(item)\<close> under its own \<open>try\<close>: a document whose \<open>add\<close> throws is
  skipped.\<close>

definition flexAdd :: "env \<Rightarrow> SearchableItem list option \<Rightarrow> SearchableItem \<Rightarrow> SearchableItem list option" where
  "flexAdd e idx item =
     (case idx of None \<Rightarrow> None
      | Some docs \<Rightarrow> if flex_add_throws e item then Some docs else Some (docs @ [item]))"

text \<open>
  The body of the \<open>try\<close> for one store: \<open>Inl\<close> is the error thrown by \<open>database.getAll\<close>,
  before anything has been written.
\<close>

definition indexStore :: "env \<Rightarrow> index_state \<Rightarrow> string \<Rightarrow> error + index_state" where
  "indexStore e st storeName =
     (case getAll e storeName of
        Inl err \<Rightarrow> Inl err
      | Inr items \<Rightarrow>
          let processedItems = map (processItem storeName) items;
              st1 = st\<lparr> searchIndex := fold (\<lambda>item idx. flexAdd e idx item) processedItems (searchIndex st) \<rparr>
          in Inr (st1\<lparr> fuseInstances := AList.update storeName processedItems (fuseInstances st1) \<rparr>))"

text \<open>One turn of the loop: the \<open>catch\<close> logs the error and goes on with the state as it is.\<close>

definition buildStep :: "env \<Rightarrow> string \<Rightarrow> index_state \<Rightarrow> index_state" where
  "buildStep e storeName st =
     (case indexStore e st storeName of Inl err \<Rightarrow> st | Inr st' \<Rightarrow> st')"

text \<open>The two writes before the loop: a fresh document index, and \<open>fuseInstances.clear()\<close>.\<close>

definition clearIndex :: "index_state \<Rightarrow> index_state" where
  "clearIndex st = st\<lparr> searchIndex := Some [], fuseInstances := [] \<rparr>"

definition buildSearchIndex :: "env \<Rightarrow> index_state \<Rightarrow> index_state" where
  "buildSearchIndex e st =
     (fold (buildStep e) stores (clearIndex st))\<lparr> lastIndexUpdate := now e \<rparr>"


subsection \<open>Searching\<close>

text \<open>
  The running result map of \<open>search\<close> is a JavaScript \<open>Map\<close> from a key to a result, kept
  as an association list in insertion order: \<open>set\<close> on a key that is present replaces the
  value in place, \<open>set\<close> on a new key appends (\<^const>\<open>AList.update\<close>), and \<open>values()\<close> lists
  the values in that order.
\<close>

type_synonym result_map = "(string \<times> EnhancedSearchResult) list"

text \<open>\<open>!results.has(key) || results.get(key)!._score < s\<close>.\<close>

definition absent_or_lower :: "result_map \<Rightarrow> string \<Rightarrow> real \<Rightarrow> bool" where
  "absent_or_lower results key s =
     (case map_of results key of None \<Rightarrow> True | Some r \<Rightarrow> score r < s)"

text \<open>\<open>result.matches?.map(m => m.key || '') || []\<close>.\<close>

definition matchKeys :: "FuseResult \<Rightarrow> string list" where
  "matchKeys result =
     (case fr_matches result of None \<Rightarrow> []
      | Some ms \<Rightarrow> map (\<lambda>k. case k of None \<Rightarrow> [] | Some key \<Rightarrow> key) ms)"

text \<open>\<open>result.score || 0\<close>.\<close>

definition distance :: "FuseResult \<Rightarrow> real" where
  "distance result = (case fr_score result of None \<Rightarrow> 0 | Some d \<Rightarrow> d)"

text \<open>The body of \<open>fuseResults.forEach\<close> in the fuzzy tier.\<close>

definition fuzzyStep :: "string \<Rightarrow> real \<Rightarrow> string \<Rightarrow> FuseResult \<Rightarrow> result_map \<Rightarrow> result_map" where
  "fuzzyStep query threshold moduleType result results =
     (let key = moduleType @ ''-'' @ item_id (fr_item result);
          s = dbl (1 - distance result)
      in if s \<ge> threshold \<and> absent_or_lower results key s
         then AList.update key
                \<lparr> res_item = fr_item result,
                  score = dbl (s * dbl 0.8),
                  matchedFields = matchKeys result,
                  snippet = Some (generateSnippet (fr_item result) query) \<rparr>
                results
         else results)"

text \<open>The loop over \<open>this.fuseInstances\<close>; \<open>modules\<close> is \<open>None\<close> when the option is missing.\<close>

definition fuzzyTier ::
  "env \<Rightarrow> index_state \<Rightarrow> string list option \<Rightarrow> int \<Rightarrow> real \<Rightarrow> string \<Rightarrow> result_map" where
  "fuzzyTier e st modules limit threshold query =
     fold (\<lambda>(moduleType, fuseInstance) results.
             if (case modules of None \<Rightarrow> False | Some ms \<Rightarrow> moduleType \<notin> set ms) then results
             else fold (fuzzyStep query threshold moduleType)
                    (fuse_search e fuseInstance query limit) results)
       (fuseInstances st) []"

definition entryKey :: "EnhancedSearchResult \<Rightarrow> string" where
  "entryKey r = item_type (res_item r) @ ''-'' @ item_id (res_item r)"

text \<open>The body of \<open>nlpResults.forEach\<close>, and of the deduplication of \<open>semanticSearch\<close>.\<close>

definition mergeStep :: "EnhancedSearchResult \<Rightarrow> result_map \<Rightarrow> result_map" where
  "mergeStep item results =
     (let key = entryKey item
      in if absent_or_lower results key (score item) then AList.update key item results
         else results)"

text \<open>\<open>.sort((a, b) => b._score - a._score)\<close>: descending, and stable.\<close>

definition sortByScore :: "EnhancedSearchResult list \<Rightarrow> EnhancedSearchResult list" where
  "sortByScore rs = sort_key (\<lambda>r. - score r) rs"

text \<open>\<open>xs.slice(0, limit)\<close>: a negative end counts from the end of the array.\<close>

definition slice0 :: "'a list \<Rightarrow> int \<Rightarrow> 'a list" where
  "slice0 xs limit =
     (if limit \<ge> 0 then take (nat limit) xs else take (nat (int (length xs) + limit)) xs)"

text \<open>
  \<open>search\<close> calls \<open>searchWithNLP\<close>, which calls \<open>search\<close> again on the joined search
  terms, and nothing in the source bounds that chain. The functions below take the
  search they call as an argument \<open>srch\<close>; a call returns \<open>None\<close> when it does not return,
  and otherwise the results with the state of the service after the call.
\<close>

type_synonym search_fn =
  "string \<Rightarrow> SearchOptions \<Rightarrow> index_state \<Rightarrow> (EnhancedSearchResult list \<times> index_state) option"

definition tagged :: "real \<Rightarrow> string \<Rightarrow> EnhancedSearchResult \<Rightarrow> EnhancedSearchResult" where
  "tagged factor field result =
     result\<lparr> score := dbl (score result * factor), matchedFields := matchedFields result @ [field] \<rparr>"

definition searchWithNLP ::
  "search_fn \<Rightarrow> SearchQuery \<Rightarrow> string list option \<Rightarrow> index_state
     \<Rightarrow> (EnhancedSearchResult list \<times> index_state) option" where
  "searchWithNLP srch parsedQuery modules st =
     (if length (searchTerms parsedQuery) > 0
      then (case srch (join_space (searchTerms parsedQuery))
                   \<lparr> opt_modules = modules, opt_limit = Some 10, opt_threshold = None \<rparr> st of
              None \<Rightarrow> None
            | Some (basicResults, st') \<Rightarrow> Some (map (tagged (dbl 0.6) ''nlp'') basicResults, st'))
      else Some ([], st))"

text \<open>The defaults of the destructuring \<open>{ modules, limit = 20, threshold = 0.3 }\<close>.\<close>

definition optLimit :: "SearchOptions \<Rightarrow> int" where
  "optLimit options = (case opt_limit options of None \<Rightarrow> 20 | Some l \<Rightarrow> l)"

definition optThreshold :: "SearchOptions \<Rightarrow> real" where
  "optThreshold options = (case opt_threshold options of None \<Rightarrow> dbl 0.3 | Some t \<Rightarrow> t)"

text \<open>\<open>if (Date.now() - this.lastIndexUpdate > this.indexUpdateInterval) await this.buildSearchIndex()\<close>.\<close>

definition refreshIfStale :: "env \<Rightarrow> index_state \<Rightarrow> index_state" where
  "refreshIfStale e st =
     (if now e - lastIndexUpdate st > indexUpdateInterval then buildSearchIndex e st else st)"

text \<open>
  One call of \<open>search\<close>, given the search it calls. The FlexSearch lookup of the first
  tier only logs what it finds (and catches what it throws), so it leaves no trace here.
\<close>

definition searchBody ::
  "search_fn \<Rightarrow> env \<Rightarrow> string \<Rightarrow> SearchOptions \<Rightarrow> index_state
     \<Rightarrow> (EnhancedSearchResult list \<times> index_state) option" where
  "searchBody srch e query options st =
     (let modules = opt_modules options;
          limit = optLimit options;
          threshold = optThreshold options;
          parsedQuery = parseSearchQuery (clock e) (nlp e) query;
          st1 = refreshIfStale e st;
          results = fuzzyTier e st1 modules limit threshold query
      in case searchWithNLP srch parsedQuery modules st1 of
           None \<Rightarrow> None
         | Some (nlpResults, st2) \<Rightarrow>
             Some (slice0 (sortByScore (map snd (fold mergeStep nlpResults results))) limit, st2))"

text \<open>\<open>search n\<close> returns what \<open>search\<close> returns when its chain of nested calls is shorter
  than \<open>n\<close>, and \<open>None\<close> otherwise.\<close>

primrec search :: "nat \<Rightarrow> env \<Rightarrow> search_fn" where
  "search 0 e = (\<lambda>query options st. None)"
| "search (Suc n) e = searchBody (search n e) e"

fun searchByEntity ::
  "search_fn \<Rightarrow> string \<Rightarrow> string list \<Rightarrow> index_state
     \<Rightarrow> (EnhancedSearchResult list \<times> index_state) option" where
  "searchByEntity srch entityType [] st = Some ([], st)"
| "searchByEntity srch entityType (entity # rest) st =
     (case srch entity \<lparr> opt_modules = None, opt_limit = Some 5, opt_threshold = None \<rparr> st of
        None \<Rightarrow> None
      | Some (entityResults, st1) \<Rightarrow>
          (case searchByEntity srch entityType rest st1 of
             None \<Rightarrow> None
           | Some (others, st2) \<Rightarrow> Some (map (tagged (dbl 0.7) entityType) entityResults @ others, st2)))"

text \<open>\<open>if (filters.location)\<close>: a missing or empty string is falsy.\<close>

definition truthy :: "string option \<Rightarrow> bool" where
  "truthy v = (case v of None \<Rightarrow> False | Some s \<Rightarrow> s \<noteq> [])"

definition searchByFilters ::
  "search_fn \<Rightarrow> Filters \<Rightarrow> index_state \<Rightarrow> (EnhancedSearchResult list \<times> index_state) option" where
  "searchByFilters srch fs st =
     (case (if truthy (filter_location fs)
            then (case srch (or_str (filter_location fs) [])
                         \<lparr> opt_modules = None, opt_limit = Some 10, opt_threshold = None \<rparr> st of
                    None \<Rightarrow> None
                  | Some (locationResults, st1) \<Rightarrow>
                      Some (map (tagged (dbl 0.8) ''location'') locationResults, st1))
            else Some ([], st)) of
        None \<Rightarrow> None
      | Some (results, st1) \<Rightarrow>
          (if truthy (filter_person fs)
           then (case srch (or_str (filter_person fs) [])
                        \<lparr> opt_modules = Some [''people''], opt_limit = Some 5, opt_threshold = None \<rparr>
                        st1 of
                   None \<Rightarrow> None
                 | Some (personResults, st2) \<Rightarrow>
                     Some (results @ map (tagged (dbl 0.9) ''person'') personResults, st2))
           else Some (results, st1)))"

definition semanticSearchBody ::
  "search_fn \<Rightarrow> env \<Rightarrow> string \<Rightarrow> string list option \<Rightarrow> index_state
     \<Rightarrow> (EnhancedSearchResult list \<times> index_state) option" where
  "semanticSearchBody srch e query modules st =
     (let parsedQuery = parseSearchQuery (clock e) (nlp e) query
      in case (if length (people (entities parsedQuery)) > 0
               then searchByEntity srch ''people'' (people (entities parsedQuery)) st
               else Some ([], st)) of
           None \<Rightarrow> None
         | Some (peopleResults, st1) \<Rightarrow>
             (case (if length (places (entities parsedQuery)) > 0
                    then searchByEntity srch ''places'' (places (entities parsedQuery)) st1
                    else Some ([], st1)) of
                None \<Rightarrow> None
              | Some (placesResults, st2) \<Rightarrow>
                  (case searchByFilters srch (filters parsedQuery) st2 of
                     None \<Rightarrow> None
                   | Some (filteredResults, st3) \<Rightarrow>
                       let allResults = peopleResults @ placesResults @ filteredResults;
                           uniqueResults = fold mergeStep allResults []
                       in Some (sortByScore
                                  (filter (\<lambda>result. case modules of None \<Rightarrow> True
                                             | Some ms \<Rightarrow> item_type (res_item result) \<in> set ms)
                                     (map snd uniqueResults)),
                                st3))))"

definition semanticSearch ::
  "nat \<Rightarrow> env \<Rightarrow> string \<Rightarrow> string list option \<Rightarrow> index_state
     \<Rightarrow> (EnhancedSearchResult list \<times> index_state) option" where
  "semanticSearch n e = semanticSearchBody (search n e) e"

section \<open>The enrichment client and the feedback loop of the search box\<close>

text \<open>
  What the client reads of the response body: the fields \<open>searchTerms\<close>, \<open>filters\<close> and
  \<open>suggestions\<close> of an analysis. A parsed body is \<open>null\<close>, an object with its \<open>success\<close>
  flag, its own analysis fields and its optional \<open>fallback\<close>, or any other JSON value.
\<close>

record AIAnalysis =
  ai_searchTerms :: "string list option"
  ai_filters :: "(string \<times> string) list"
  ai_suggestions :: "string list"

datatype ai_json = JsonNull | JsonOther | JsonObject bool AIAnalysis "AIAnalysis option"

text \<open>
  What \<open>fetch\<close> and \<open>response.json()\<close> do: the request is rejected (a network error), or a
  response arrives with its \<open>ok\<close> flag and a body that parses (\<open>Some\<close>) or not (\<open>None\<close>).
\<close>

datatype fetch_outcome = FetchRejected | FetchResponse bool "ai_json option"

type_synonym fetch_fn = "string \<Rightarrow> EnhancedSearchResult list \<Rightarrow> fetch_outcome"

definition substitute :: "string \<Rightarrow> AIAnalysis" where
  "substitute query = \<lparr> ai_searchTerms = Some [query], ai_filters = [], ai_suggestions = [] \<rparr>"

text \<open>
  \<open>AIService.enhancedSearch\<close>. Everything thrown inside its \<open>try\<close> (the rejected fetch, the
  status that is not ok, the body that does not parse, the property read on \<open>null\<close>) ends
  in the \<open>catch\<close>, which returns the substitute. The result is \<open>None\<close> when the function
  returns \<open>undefined\<close>.
\<close>

definition enhancedSearch :: "fetch_fn \<Rightarrow> string \<Rightarrow> EnhancedSearchResult list \<Rightarrow> AIAnalysis option" where
  "enhancedSearch fetch query ctxt =
     (case fetch query ctxt of
        FetchRejected \<Rightarrow> Some (substitute query)
      | FetchResponse ok body \<Rightarrow>
          if \<not> ok then Some (substitute query)
          else (case body of
                  None \<Rightarrow> Some (substitute query)
                | Some JsonNull \<Rightarrow> Some (substitute query)
                | Some JsonOther \<Rightarrow> None
                | Some (JsonObject success self fallback) \<Rightarrow>
                    if success then Some self else fallback))"

text \<open>
  The enrichment block of \<open>handleSearch\<close>. Its own \<open>catch\<close> keeps the results it has when
  the analysis is \<open>undefined\<close> (reading \<open>searchTerms\<close> throws); the search it calls
  returns \<open>None\<close> when it does not return.
\<close>

definition enhanceWithAI ::
  "search_fn \<Rightarrow> fetch_fn \<Rightarrow> string \<Rightarrow> EnhancedSearchResult list \<Rightarrow> index_state
     \<Rightarrow> (EnhancedSearchResult list \<times> index_state) option" where
  "enhanceWithAI srch fetch query searchResults st =
     (if length query > 8 \<and> length searchResults < 5
      then (case enhancedSearch fetch query (take 3 searchResults) of
              None \<Rightarrow> Some (searchResults, st)
            | Some aiAnalysis \<Rightarrow>
                (case ai_searchTerms aiAnalysis of
                   None \<Rightarrow> Some (searchResults, st)
                 | Some terms \<Rightarrow>
                     if length terms > 0
                     then (case srch (join_space terms) no_options st of
                             None \<Rightarrow> None
                           | Some (enhancedResults, st') \<Rightarrow>
                               if length enhancedResults > length searchResults
                               then Some (enhancedResults, st')
                               else Some (searchResults, st'))
                     else Some (searchResults, st)))
      else Some (searchResults, st))"

datatype searchMode = basic | fuzzy | semantic

definition chooseMode :: "string \<Rightarrow> searchMode" where
  "chooseMode query =
     (if length query > 10
         \<and> (str_includes query '' in '' \<or> str_includes query '' with '' \<or> str_includes query '' from '')
      then semantic
      else if length query > 5 then fuzzy else basic)"

text \<open>
  The results \<open>handleSearch\<close> hands to \<open>setResults\<close>. \<open>universalSearch\<close> is the basic search
  of the database.
\<close>

definition handleSearch ::
  "nat \<Rightarrow> env \<Rightarrow> fetch_fn \<Rightarrow> (string \<Rightarrow> EnhancedSearchResult list) \<Rightarrow> string \<Rightarrow> index_state
     \<Rightarrow> (EnhancedSearchResult list \<times> index_state) option" where
  "handleSearch n e fetch universalSearch query st =
     (if length (trim query) < 2 then Some ([], st)
      else (case (case chooseMode query of
                    semantic \<Rightarrow> semanticSearch n e query None st
                  | fuzzy \<Rightarrow> search n e query (no_options\<lparr> opt_threshold := Some (dbl 0.3) \<rparr>) st
                  | basic \<Rightarrow> Some (universalSearch query, st)) of
              None \<Rightarrow> None
            | Some (searchResults, st1) \<Rightarrow> enhanceWithAI (search n e) fetch query searchResults st1))"

section \<open>Reference notions\<close>

text \<open>
  The tag candidates of \<open>generateTags\<close> in the words of its description: the nouns of
  3 to 19 characters in lower case, the keeping of first occurrences that a \<open>Set\<close>
  performs, and the optional type as a list.
\<close>

definition nounTags :: "nlp_doc \<Rightarrow> string list" where
  "nounTags doc = map toLowerCase (filter (\<lambda>noun. 3 \<le> length noun \<and> length noun \<le> 19) (doc_nouns doc))"

definition first_occurrences :: "string list \<Rightarrow> string list" where
  "first_occurrences xs = rev (remdups (rev xs))"

definition typeTag :: "string option \<Rightarrow> string list" where
  "typeTag type = (case type of None \<Rightarrow> [] | Some t \<Rightarrow> if t = [] then [] else [t])"

section \<open>Example configurations\<close>

text \<open>A parser that reports the text and finds nothing in it, and a clock.\<close>

definition quiet_nlp :: "string \<Rightarrow> nlp_doc" where
  "quiet_nlp text = \<lparr> doc_text = text, doc_nouns = [], doc_adjectives = [], doc_people = [],
     doc_places = [], doc_organizations = [], doc_money = [], doc_dates = [] \<rparr>"

definition example_clock :: clock_dates where
  "example_clock = \<lparr> lastWeek = ''2024-05-05T00:00:00.000Z'', thisMonth = ''2024-05-01T00:00:00.000Z'' \<rparr>"

text \<open>A parser that finds ten nouns in every text.\<close>

definition ten_nouns :: "string list" where
  "ten_nouns = [''Temple'', ''museum'', ''journal'', ''mountains'', ''river'', ''bridge'', ''market'',
     ''harbour'', ''garden'', ''tower'']"

definition noun_nlp :: "string \<Rightarrow> nlp_doc" where
  "noun_nlp text = (quiet_nlp text)\<lparr> doc_nouns := ten_nouns \<rparr>"

text \<open>A record whose description has one long sentence (164 characters) and a short one.\<close>

definition long_description :: string where
  "long_description = ''We walked along the river and saw '' @ replicate 130 (CHR ''a'') @ ''!  A short one.''"

definition river_item :: SearchableItem where
  "river_item = \<lparr> item_id = ''j1'', title = Some ''River walk'', name = None,
     description = Some long_description, content = None, location = Some ''Porto'',
     tags = Some [''walk''], item_type = ''journalEntries'',
     createdAt = ''2024-05-01T10:00:00.000Z'', updatedAt = ''2024-05-01T10:00:00.000Z'',
     searchableText = None \<rparr>"

text \<open>
  The Fuse instances a build leaves for a list of stores, in the words of the
  specification: one instance per store whose read succeeds, holding all its items.
\<close>

definition loadedStores :: "env \<Rightarrow> string list \<Rightarrow> (string \<times> SearchableItem list) list" where
  "loadedStores e ss =
     concat (map (\<lambda>s. case getAll e s of Inl err \<Rightarrow> []
                       | Inr items \<Rightarrow> [(s, map (processItem s) items)]) ss)"

text \<open>
  A database with one journal entry and one person, whose store of expenses cannot be
  read; a Fuse stand-in that finds the items whose searchable text contains the lower-cased
  query, at distance 0.1 when the title or name contains it too and 0.65 otherwise, and
  cuts its list at a limit above -1 (as Fuse does); and the service as it is created.
\<close>

definition maria_item :: SearchableItem where
  "maria_item = \<lparr> item_id = ''p1'', title = None, name = Some ''Maria'',
     description = Some ''Met in Porto on the river walk.'', content = None, location = Some ''Porto'',
     tags = Some [''friend''], item_type = ''people'',
     createdAt = ''2024-05-02T10:00:00.000Z'', updatedAt = ''2024-05-02T10:00:00.000Z'',
     searchableText = None \<rparr>"

definition demo_getAll :: "string \<Rightarrow> error + SearchableItem list" where
  "demo_getAll storeName =
     (if storeName = ''journalEntries'' then Inr [river_item]
      else if storeName = ''people'' then Inr [maria_item]
      else if storeName = ''expenses'' then Inl (Error ''read failed'')
      else Inr [])"

definition demo_fuse :: "SearchableItem list \<Rightarrow> string \<Rightarrow> int \<Rightarrow> FuseResult list" where
  "demo_fuse items query limit =
     (let hits = map (\<lambda>item.
                   \<lparr> fr_item = item,
                     fr_score = Some (if str_includes (toLowerCase (or_str (title item) (or_str (name item) [])))
                                           (toLowerCase query)
                                      then dbl 0.1 else dbl 0.65),
                     fr_matches = Some [Some ''searchableText''] \<rparr>)
                 (filter (\<lambda>item. str_includes (or_str (searchableText item) []) (toLowerCase query)) items)
      in if limit > -1 then take (nat limit) hits else hits)"

definition demo_env :: env where
  "demo_env = \<lparr> nlp = quiet_nlp, clock = example_clock, now = 1714644000000,
     getAll = demo_getAll, fuse_search = demo_fuse, flex_add_throws = (\<lambda>item. False) \<rparr>"

definition initial_state :: index_state where
  "initial_state = \<lparr> searchIndex = None, fuseInstances = [], lastIndexUpdate = 0 \<rparr>"

definition built_state :: index_state where
  "built_state = buildSearchIndex demo_env initial_state"

section \<open>Assumptions on the libraries, and invariants\<close>



text \<open>The instance of a store holds items tagged with that store, as every build leaves it.\<close>

definition index_ok :: "index_state \<Rightarrow> bool" where
  "index_ok st = (\<forall>(s, items) \<in> set (fuseInstances st). \<forall>item \<in> set items. item_type item = s)"

text \<open>The failures of the enrichment call: a network error, a status that is not ok, a
  body that does not parse or parses to \<open>null\<close>.\<close>

definition fetch_failed :: "fetch_outcome \<Rightarrow> bool" where
  "fetch_failed outcome =
     (case outcome of FetchRejected \<Rightarrow> True
      | FetchResponse ok body \<Rightarrow> \<not> ok \<or> body = None \<or> body = Some JsonNull)"

text \<open>An enrichment service that cannot be reached, and a database without basic hits.\<close>

definition reject_fetch :: fetch_fn where
  "reject_fetch query ctxt = FetchRejected"

definition no_basic_hits :: "string \<Rightarrow> EnhancedSearchResult list" where
  "no_basic_hits query = []"


text \<open>A result of the fuzzy tier descends from a hit of a Fuse instance of the index: it
  has the item of the hit and 0.8 times its similarity (1 minus the distance), which is
  at least the threshold.\<close>

definition fuzzyHit :: "env \<Rightarrow> index_state \<Rightarrow> string \<Rightarrow> int \<Rightarrow> real \<Rightarrow> EnhancedSearchResult \<Rightarrow> bool" where
  "fuzzyHit e st query limit threshold r =
     (\<exists>(moduleType, fuseInstance) \<in> set (fuseInstances st).
        \<exists>result \<in> set (fuse_search e fuseInstance query limit).
          res_item r = fr_item result
          \<and> score r = dbl (dbl (1 - distance result) * dbl 0.8)
          \<and> threshold \<le> dbl (1 - distance result))"

text \<open>The two results of the query \<open>river\<close> on the example index: their scores are the
  doubles 0.7200000000000001 and 0.27999999999999997.\<close>

definition river_hit :: EnhancedSearchResult where
  "river_hit = \<lparr> res_item = processItem ''journalEntries'' river_item,
     score = dbl (dbl (1 - dbl 0.1) * dbl 0.8),
     matchedFields = [''searchableText''],
     snippet = Some (generateSnippet (processItem ''journalEntries'' river_item) ''river'') \<rparr>"

definition maria_hit :: EnhancedSearchResult where
  "maria_hit = \<lparr> res_item = processItem ''people'' maria_item,
     score = dbl (dbl (1 - dbl 0.65) * dbl 0.8),
     matchedFields = [''searchableText''],
     snippet = Some ''Met in Porto on the river walk'' \<rparr>"

text \<open>A service whose parser finds nouns in every text.\<close>

definition noun_env :: env where
  "noun_env = demo_env\<lparr> nlp := noun_nlp \<rparr>"

text \<open>
  Whether \<open>search\<close> returns within \<open>n\<close> nested calls: the chain of queries, each the joined
  search terms of the one before, reaches a query without search terms.
\<close>

primrec returnsWithin :: "nat \<Rightarrow> env \<Rightarrow> string \<Rightarrow> bool" where
  "returnsWithin 0 e query = False"
| "returnsWithin (Suc n) e query =
     (searchTerms (parseSearchQuery (clock e) (nlp e) query) = []
      \<or> returnsWithin n e (join_space (searchTerms (parseSearchQuery (clock e) (nlp e) query))))"





section \<open>Properties\<close>

subsection \<open>Rounding to doubles\<close>

lemma round_even_floor: "\<lfloor>q\<rfloor> \<le> round_even q \<and> round_even q \<le> \<lfloor>q\<rfloor> + 1"
  by (simp add: round_even_def Let_def)

lemma round_even_int: "round_even (of_int m) = m"
  by (simp add: round_even_def Let_def)

lemma round_even_ge: "of_int m \<le> q \<Longrightarrow> m \<le> round_even q"
proof -
  assume "of_int m \<le> q"
  then have "m \<le> \<lfloor>q\<rfloor>" by (simp add: le_floor_iff)
  then show ?thesis using round_even_floor [of q] by linarith
qed

lemma round_even_le: "q \<le> of_int m \<Longrightarrow> round_even q \<le> m"
proof (cases "q = of_int m")
  case True
  then show ?thesis by (simp add: round_even_int)
next
  case False
  assume "q \<le> of_int m"
  then have "q < of_int m" using False by simp
  then have "\<lfloor>q\<rfloor> < m" by (simp add: floor_less_iff)
  then show ?thesis using round_even_floor [of q] by linarith
qed

lemma round_even_mono: "q \<le> q' \<Longrightarrow> round_even q \<le> round_even q'"
proof -
  assume le: "q \<le> q'"
  then have fl: "\<lfloor>q\<rfloor> \<le> \<lfloor>q'\<rfloor>" by (rule floor_mono)
  show ?thesis
  proof (cases "\<lfloor>q\<rfloor> = \<lfloor>q'\<rfloor>")
    case True
    then show ?thesis using le by (auto simp: round_even_def Let_def)
  next
    case False
    then have "\<lfloor>q\<rfloor> + 1 \<le> \<lfloor>q'\<rfloor>" using fl by linarith
    then show ?thesis using round_even_floor [of q] round_even_floor [of q'] by linarith
  qed
qed

lemma powi_double: "2 * (2::real) powi e = 2 powi (e + 1)"
  by (simp add: power_int_add)

lemma powi_half: "(2::real) powi e / 2 = 2 powi (e - 1)"
  by (simp add: power_int_diff)

lemma exp_down_props:
  assumes "p = 2 powi e" and "a < 2 powi (e + 1)"
  shows "a < 2 powi (exp_down k e p a + 1)
         \<and> (2 powi (exp_down k e p a) \<le> a \<or> exp_down k e p a = e - int k)
         \<and> e - int k \<le> exp_down k e p a \<and> exp_down k e p a \<le> e"
  using assms
proof (induction k arbitrary: e p)
  case 0
  then show ?case by simp
next
  case (Suc k)
  show ?case
  proof (cases "p \<le> a")
    case True
    then show ?thesis using Suc.prems by simp
  next
    case False
    have p': "p / 2 = 2 powi (e - 1)" using Suc.prems(1) by (simp add: powi_half)
    have a': "a < 2 powi ((e - 1) + 1)" using False Suc.prems(1) by simp
    note ih = Suc.IH [OF p' a']
    have eq: "exp_down (Suc k) e p a = exp_down k (e - 1) (p / 2) a" using False by simp
    show ?thesis unfolding eq using ih by auto
  qed
qed

lemma exp_up_props:
  assumes "p = 2 powi e" and "2 powi e \<le> a"
  shows "2 powi (exp_up k e p a) \<le> a
         \<and> (a < 2 powi (exp_up k e p a + 1) \<or> exp_up k e p a = e + int k)
         \<and> e \<le> exp_up k e p a \<and> exp_up k e p a \<le> e + int k"
  using assms
proof (induction k arbitrary: e p)
  case 0
  then show ?case by simp
next
  case (Suc k)
  show ?case
  proof (cases "a < 2 * p")
    case True
    then show ?thesis using Suc.prems by (simp add: powi_double)
  next
    case False
    have p': "2 * p = 2 powi (e + 1)" using Suc.prems(1) by (simp add: powi_double)
    have a': "2 powi (e + 1) \<le> a" using False p' by simp
    note ih = Suc.IH [OF p' a']
    have eq: "exp_up (Suc k) e p a = exp_up k (e + 1) (2 * p) a" using False by simp
    show ?thesis unfolding eq using ih by auto
  qed
qed

lemma expo_range: "- 1022 \<le> expo a \<and> expo a \<le> 1024"
proof (cases "a < 1")
  case True
  have "a < 2 powi (- 1 + 1)" using True by simp
  from exp_down_props [OF _ this, of "1 / 2" 1021]
  show ?thesis using True by (simp add: expo_def)
next
  case False
  have "2 powi 0 \<le> a" using False by simp
  from exp_up_props [OF _ this, of 1 1024]
  show ?thesis using False by (simp add: expo_def)
qed

lemma expo_lower: "- 1022 < expo a \<Longrightarrow> 2 powi (expo a) \<le> a"
proof (cases "a < 1")
  case True
  assume r: "- 1022 < expo a"
  have "a < 2 powi (- 1 + 1)" using True by simp
  from exp_down_props [OF _ this, of "1 / 2" 1021]
  show ?thesis using True r by (simp add: expo_def)
next
  case False
  have "2 powi 0 \<le> a" using False by simp
  from exp_up_props [OF _ this, of 1 1024]
  show ?thesis using False by (simp add: expo_def)
qed

lemma expo_upper: "expo a < 1024 \<Longrightarrow> a < 2 powi (expo a + 1)"
proof (cases "a < 1")
  case True
  have "a < 2 powi (- 1 + 1)" using True by simp
  from exp_down_props [OF _ this, of "1 / 2" 1021]
  show ?thesis using True by (simp add: expo_def)
next
  case False
  assume r: "expo a < 1024"
  have "2 powi 0 \<le> a" using False by simp
  from exp_up_props [OF _ this, of 1 1024]
  show ?thesis using False r by (simp add: expo_def)
qed

lemma expo_mono: "a \<le> b \<Longrightarrow> expo a \<le> expo b"
proof (rule ccontr)
  assume ab: "a \<le> b" and "\<not> expo a \<le> expo b"
  then have lt: "expo b < expo a" by simp
  have "- 1022 < expo a" using lt expo_range [of b] by linarith
  then have la: "2 powi (expo a) \<le> a" by (rule expo_lower)
  have "expo b < 1024" using lt expo_range [of a] by linarith
  then have ub: "b < 2 powi (expo b + 1)" by (rule expo_upper)
  have "(2::real) powi (expo b + 1) \<le> 2 powi (expo a)"
    using lt by (intro power_int_increasing) auto
  then show False using la ub ab by linarith
qed


lemma dbl_pos_eq:
  "0 < a \<Longrightarrow> dbl a = of_int (round_even (a / 2 powi (expo a - 52))) * 2 powi (expo a - 52)"
  by (simp add: dbl_def Let_def)

lemma dbl_zero: "dbl 0 = 0"
  by (simp add: dbl_def)

lemma dbl_minus: "dbl (- x) = - dbl x"
  by (simp add: dbl_def Let_def)

lemma powi_split: "(2::real) powi e = 2 powi 52 * 2 powi (e - 52)"
  using power_int_add [of "2::real" 52 "e - 52"] by simp

lemma powi_split_up: "(2::real) powi (e + 1) = 2 powi 53 * 2 powi (e - 52)"
  using power_int_add [of "2::real" 53 "e - 52"] by (simp add: add.commute)

lemma dbl_binade_lower:
  assumes "0 < a" and "- 1022 < expo a"
  shows "2 powi (expo a) \<le> dbl a"
proof -
  let ?u = "(2::real) powi (expo a - 52)"
  have u: "0 < ?u" by simp
  have "2 powi (expo a) \<le> a" using assms(2) by (rule expo_lower)
  then have "2 powi 52 * ?u \<le> a" using powi_split [of "expo a"] by simp
  then have "2 powi 52 \<le> a / ?u" using u by (simp add: pos_le_divide_eq)
  then have "of_int (2 ^ 52) \<le> a / ?u" by simp
  then have "(2 ^ 52 :: int) \<le> round_even (a / ?u)" by (rule round_even_ge)
  then have "(of_int (2 ^ 52) :: real) \<le> of_int (round_even (a / ?u))" by (rule of_int_le_iff [THEN iffD2])
  then have "of_int (2 ^ 52) * ?u \<le> of_int (round_even (a / ?u)) * ?u"
    using u by (simp add: mult_right_mono)
  then show ?thesis
    using powi_split [of "expo a"] dbl_pos_eq [OF assms(1)] by simp
qed

lemma dbl_binade_upper:
  assumes "0 < a" and "expo a < 1024"
  shows "dbl a \<le> 2 powi (expo a + 1)"
proof -
  let ?u = "(2::real) powi (expo a - 52)"
  have u: "0 < ?u" by simp
  have "a < 2 powi (expo a + 1)" using assms(2) by (rule expo_upper)
  then have "a \<le> 2 powi 53 * ?u" using powi_split_up [of "expo a"] by simp
  then have "a / ?u \<le> 2 powi 53" using u by (simp add: pos_divide_le_eq)
  then have "a / ?u \<le> of_int (2 ^ 53)" by simp
  then have "round_even (a / ?u) \<le> (2 ^ 53 :: int)" by (rule round_even_le)
  then have "(of_int (round_even (a / ?u)) :: real) \<le> of_int (2 ^ 53)" by (rule of_int_le_iff [THEN iffD2])
  then have "of_int (round_even (a / ?u)) * ?u \<le> of_int (2 ^ 53) * ?u"
    using u by (simp add: mult_right_mono)
  then show ?thesis
    using powi_split_up [of "expo a"] dbl_pos_eq [OF assms(1)] by simp
qed

lemma dbl_mono_pos:
  assumes "0 < a" and "a \<le> b"
  shows "dbl a \<le> dbl b"
proof -
  have b: "0 < b" using assms by linarith
  have e: "expo a \<le> expo b" using assms(2) by (rule expo_mono)
  show ?thesis
  proof (cases "expo a = expo b")
    case True
    let ?u = "(2::real) powi (expo b - 52)"
    have u: "0 < ?u" by simp
    have "a / ?u \<le> b / ?u" using assms(2) u by (simp add: divide_right_mono)
    then have "round_even (a / ?u) \<le> round_even (b / ?u)" by (rule round_even_mono)
    then have "(of_int (round_even (a / ?u)) :: real) \<le> of_int (round_even (b / ?u))"
      by (rule of_int_le_iff [THEN iffD2])
    then have "of_int (round_even (a / ?u)) * ?u \<le> of_int (round_even (b / ?u)) * ?u"
      using u by (simp add: mult_right_mono)
    then show ?thesis
      using dbl_pos_eq [OF assms(1)] dbl_pos_eq [OF b] True by simp
  next
    case False
    then have lt: "expo a < expo b" using e by simp
    have "expo a < 1024" using lt expo_range [of b] by linarith
    then have 1: "dbl a \<le> 2 powi (expo a + 1)" using assms(1) by (intro dbl_binade_upper)
    have "- 1022 < expo b" using lt expo_range [of a] by linarith
    then have 2: "2 powi (expo b) \<le> dbl b" using b by (intro dbl_binade_lower)
    have "(2::real) powi (expo a + 1) \<le> 2 powi (expo b)"
      using lt by (intro power_int_increasing) auto
    then show ?thesis using 1 2 by linarith
  qed
qed

lemma dbl_nonneg: "0 \<le> x \<Longrightarrow> 0 \<le> dbl x"
proof (cases "x = 0")
  case True
  then show ?thesis by (simp add: dbl_zero)
next
  case False
  assume "0 \<le> x"
  then have x: "0 < x" using False by simp
  have "0 \<le> x / 2 powi (expo x - 52)" using x by simp
  then have "of_int 0 \<le> x / 2 powi (expo x - 52)" by simp
  then have "0 \<le> round_even (x / 2 powi (expo x - 52))" by (rule round_even_ge)
  then show ?thesis using dbl_pos_eq [OF x] by simp
qed

lemma dbl_mono: "x \<le> y \<Longrightarrow> dbl x \<le> dbl y"
proof -
  assume le: "x \<le> y"
  consider "0 < x" | "x \<le> 0" "0 \<le> y" | "y < 0" by linarith
  then show ?thesis
  proof cases
    case 1
    then show ?thesis using le by (rule dbl_mono_pos)
  next
    case 2
    have "0 \<le> dbl (- x)" using 2(1) by (intro dbl_nonneg) simp
    then have "dbl x \<le> 0" by (simp add: dbl_minus)
    moreover have "0 \<le> dbl y" using 2(2) by (rule dbl_nonneg)
    ultimately show ?thesis by linarith
  next
    case 3
    have "dbl (- y) \<le> dbl (- x)" using 3 le by (intro dbl_mono_pos) simp_all
    then show ?thesis by (simp add: dbl_minus)
  qed
qed

text \<open>The doubles of some literals, and a subtraction that rounds below its exact value.\<close>

lemma dbl_0_3: "dbl 0.3 = 5404319552844595 / 18014398509481984"
  by code_simp

lemma dbl_0_8: "dbl 0.8 = 3602879701896397 / 4503599627370496"
  by code_simp

lemma similarity_rounding: "dbl (1 - dbl 0.9) < dbl 0.1"
  by code_simp


subsection \<open>Substrings\<close>

lemma startsWith_iff: "startsWith s w \<longleftrightarrow> (\<exists>r. s = w @ r)"
  by (induction s w rule: startsWith.induct) auto

lemma str_includes_iff: "str_includes s w \<longleftrightarrow> (\<exists>p r. s = p @ w @ r)"
proof (induction s)
  case Nil
  then show ?case by auto
next
  case (Cons c cs)
  show ?case
  proof
    assume "str_includes (c # cs) w"
    then consider "startsWith (c # cs) w" | "str_includes cs w" by auto
    then show "\<exists>p r. c # cs = p @ w @ r"
    proof cases
      case 1
      then obtain r where "c # cs = w @ r" by (auto simp: startsWith_iff)
      then have "c # cs = [] @ w @ r" by simp
      then show ?thesis by blast
    next
      case 2
      then obtain p r where "cs = p @ w @ r" using Cons.IH by blast
      then have "c # cs = (c # p) @ w @ r" by simp
      then show ?thesis by blast
    qed
  next
    assume "\<exists>p r. c # cs = p @ w @ r"
    then obtain p r where pr: "c # cs = p @ w @ r" by blast
    show "str_includes (c # cs) w"
    proof (cases p)
      case Nil
      with pr have "startsWith (c # cs) w" by (auto simp: startsWith_iff)
      then show ?thesis by simp
    next
      case (Cons a p')
      with pr have "cs = p' @ w @ r" by simp
      then have "str_includes cs w" using Cons.IH by blast
      then show ?thesis by simp
    qed
  qed
qed

subsection \<open>Filters of a parsed query\<close>

lemma lower_find_cheap_food: "toLowerCase ''find cheap food'' = ''find cheap food''"
  by code_simp

text \<open>
  Claim C3, as amended. For the query \<open>find cheap food\<close>, whatever the parser and the clock,
  the filters have the amount \<open>{max: 20}\<close> (no minimum) and no type: the keyword table of
  the type filter has the keys temple, restaurant, museum, hotel and flight, none of which
  occurs in the query.
\<close>

theorem C3_find_cheap_food:
  "filter_amount (filters (parseSearchQuery clk parse ''find cheap food''))
     = Some \<lparr> amount_min = None, amount_max = Some 20 \<rparr>
   \<and> filter_type (filters (parseSearchQuery clk parse ''find cheap food'')) = None"
  by (simp add: parseSearchQuery_def extractFilters_def lower_find_cheap_food typeKeywords_def Let_def)

text \<open>Claim C3 as stated fails: the type of the filters is not \<open>food\<close>.\<close>

theorem C3_counterexample:
  "filter_type (filters (parseSearchQuery example_clock quiet_nlp ''find cheap food'')) \<noteq> Some ''food''"
  by (simp add: parseSearchQuery_def extractFilters_def lower_find_cheap_food typeKeywords_def Let_def)

text \<open>The amended claim C3 at the quiet parser and the example clock.\<close>

theorem C3_witness:
  "filter_amount (filters (parseSearchQuery example_clock quiet_nlp ''find cheap food''))
     = Some \<lparr> amount_min = None, amount_max = Some 20 \<rparr>
   \<and> filter_type (filters (parseSearchQuery example_clock quiet_nlp ''find cheap food'')) = None"
  using C3_find_cheap_food [of example_clock quiet_nlp] by simp


subsection \<open>Topics and categories\<close>

lemma some_included_iff:
  "some_included text keywords \<longleftrightarrow> (\<exists>keyword \<in> set keywords. \<exists>p r. text = p @ keyword @ r)"
  by (simp add: some_included_def list_ex_iff str_includes_iff)

lemma set_set_add: "set (set_add s x) = insert x (set s)"
  by (auto simp: set_add_def)

lemma set_fold_topics:
  "set (fold (\<lambda>(keywords, label) topics. if P keywords then set_add topics label else topics) tbl acc)
     = set acc \<union> {label. \<exists>keywords. (keywords, label) \<in> set tbl \<and> P keywords}"
proof (induction tbl arbitrary: acc)
  case Nil
  show ?case by simp
next
  case (Cons x tbl)
  obtain k l where x: "x = (k, l)" by (cases x)
  show ?case by (cases "P k") (auto simp: x Cons.IH set_set_add)
qed

lemma set_fold_categories:
  "set (fold (\<lambda>(category, keywords) categories. if P keywords then categories @ [category] else categories) tbl acc)
     = set acc \<union> {category. \<exists>keywords. (category, keywords) \<in> set tbl \<and> P keywords}"
proof (induction tbl arbitrary: acc)
  case Nil
  show ?case by simp
next
  case (Cons x tbl)
  obtain c k where x: "x = (c, k)" by (cases x)
  show ?case by (cases "P k") (auto simp: x Cons.IH)
qed

lemma set_extractTopics:
  "set (extractTopics doc)
     = {label. \<exists>keywords. (keywords, label) \<in> set topicTable
          \<and> some_included (toLowerCase (doc_text doc)) keywords}"
  by (simp add: extractTopics_def set_fold_topics)

lemma set_categorizeContent:
  "set (categorizeContent doc)
     = {category. \<exists>keywords. (category, keywords) \<in> set categoryMap
          \<and> some_included (toLowerCase (doc_text doc)) keywords}"
  by (simp add: categorizeContent_def set_fold_categories)

lemma topic_labels: "map snd topicTable = [''travel'', ''food'', ''culture'', ''nature'']"
  by (simp add: topicTable_def)

lemma category_labels: "set (map fst categoryMap) = set vocabulary"
  by code_simp

lemma in_categorizeContent:
  "label \<in> set (categorizeContent doc) \<longleftrightarrow>
      (\<exists>keywords. (label, keywords) \<in> set categoryMap
         \<and> (\<exists>keyword \<in> set keywords. \<exists>p r. toLowerCase (doc_text doc) = p @ keyword @ r))"
  unfolding set_categorizeContent some_included_iff by blast

lemma in_extractTopics:
  "label \<in> set (extractTopics doc) \<longleftrightarrow>
      (\<exists>keywords. (keywords, label) \<in> set topicTable
         \<and> (\<exists>keyword \<in> set keywords. \<exists>p r. toLowerCase (doc_text doc) = p @ keyword @ r))"
  unfolding set_extractTopics some_included_iff by blast

lemma extractTopics_subset: "set (extractTopics doc) \<subseteq> set (map snd topicTable)"
  unfolding set_extractTopics by force

lemma extractTopics_never:
  "set (extractTopics doc) \<inter> {''adventure'', ''entertainment'', ''shopping'', ''transport''} = {}"
proof -
  have "set [''travel'', ''food'', ''culture'', ''nature'']
          \<inter> {''adventure'', ''entertainment'', ''shopping'', ''transport''} = ({} :: string set)"
    by simp
  then show ?thesis
    using extractTopics_subset [of doc] unfolding topic_labels by blast
qed

text \<open>
  Claim C4, as amended. A label is among the categories of a document exactly when some
  keyword of the label's entry in the category map occurs in the lower-cased text, and
  the labels of the category map are the eight labels of the vocabulary. A label is among
  the topics exactly when some keyword of the label's entry in the topic table occurs in
  the lower-cased text; the topic table has the four labels travel, food, culture and
  nature only, with keyword sets of its own, so adventure, entertainment, shopping and
  transport never are topics.
\<close>

theorem C4_topics_and_categories:
  "(label \<in> set (categorizeContent doc) \<longleftrightarrow>
      (\<exists>keywords. (label, keywords) \<in> set categoryMap
         \<and> (\<exists>keyword \<in> set keywords. \<exists>p r. toLowerCase (doc_text doc) = p @ keyword @ r)))
   \<and> set (map fst categoryMap) = set vocabulary
   \<and> (label \<in> set (extractTopics doc) \<longleftrightarrow>
      (\<exists>keywords. (keywords, label) \<in> set topicTable
         \<and> (\<exists>keyword \<in> set keywords. \<exists>p r. toLowerCase (doc_text doc) = p @ keyword @ r)))
   \<and> map snd topicTable = [''travel'', ''food'', ''culture'', ''nature'']
   \<and> set (extractTopics doc) \<inter> {''adventure'', ''entertainment'', ''shopping'', ''transport''} = {}"
  using in_categorizeContent [of label doc] category_labels in_extractTopics [of label doc]
    topic_labels extractTopics_never [of doc]
  by (intro conjI)

lemma categorize_bus: "categorizeContent (quiet_nlp ''We took the bus'') = [''transport'']"
  by code_simp

lemma topics_bus: "extractTopics (quiet_nlp ''We took the bus'') = []"
  by code_simp

text \<open>
  Claim C4 as stated fails: in \<open>We took the bus\<close> a keyword of transport occurs, and
  transport is a category of the text but not a topic.
\<close>

theorem C4_counterexample:
  "some_included (toLowerCase (doc_text (quiet_nlp ''We took the bus''))) [''transport'', ''bus'', ''train'', ''taxi'', ''uber'', ''drive'', ''walk'']
   \<and> ''transport'' \<in> set (categorizeContent (quiet_nlp ''We took the bus''))
   \<and> ''transport'' \<notin> set (extractTopics (quiet_nlp ''We took the bus''))"
  by code_simp

text \<open>The amended claim C4 at the label transport and the text \<open>We took the bus\<close>.\<close>

theorem C4_witness:
  "''transport'' \<in> set (categorizeContent (quiet_nlp ''We took the bus''))
   \<and> ''transport'' \<notin> set (extractTopics (quiet_nlp ''We took the bus''))
   \<and> map snd topicTable = [''travel'', ''food'', ''culture'', ''nature'']"
  using C4_topics_and_categories [of "''transport''" "quiet_nlp ''We took the bus''"]
  by (simp only: categorize_bus topics_bus) simp

subsection \<open>Tags\<close>

lemma set_first_occurrences: "set (first_occurrences xs) = set xs"
  by (simp add: first_occurrences_def)

lemma first_occurrences_snoc:
  "first_occurrences (xs @ [x]) = set_add (first_occurrences xs) x"
  by (simp add: first_occurrences_def set_add_def)

lemma fold_set_add:
  "fold (\<lambda>x s. set_add s x) xs (first_occurrences ys) = first_occurrences (ys @ xs)"
proof (induction xs arbitrary: ys)
  case Nil
  show ?case by simp
next
  case (Cons x xs)
  have "fold (\<lambda>x s. set_add s x) (x # xs) (first_occurrences ys)
          = fold (\<lambda>x s. set_add s x) xs (first_occurrences (ys @ [x]))"
    by (simp add: first_occurrences_snoc)
  also have "\<dots> = first_occurrences ((ys @ [x]) @ xs)"
    by (rule Cons.IH)
  finally show ?case by simp
qed

lemma fold_noun_tags:
  "fold (\<lambda>noun tags. if length noun > 2 \<and> length noun < 20
                        then set_add tags (toLowerCase noun) else tags) nouns acc
     = fold (\<lambda>x s. set_add s x)
         (map toLowerCase (filter (\<lambda>noun. 3 \<le> length noun \<and> length noun \<le> 19) nouns)) acc"
proof (induction nouns arbitrary: acc)
  case Nil
  show ?case by simp
next
  case (Cons noun nouns)
  have eq: "(length noun > 2 \<and> length noun < 20) = (3 \<le> length noun \<and> length noun \<le> 19)"
    by arith
  show ?case by (simp add: Cons.IH eq)
qed

lemma fold_type_tag:
  "(case type of None \<Rightarrow> acc | Some t \<Rightarrow> if t \<noteq> [] then set_add acc t else acc)
     = fold (\<lambda>x s. set_add s x) (typeTag type) acc"
  by (simp add: typeTag_def split: option.splits)

lemma first_occurrences_Nil: "first_occurrences [] = []"
  by (simp add: first_occurrences_def)

lemma generateTags_eq:
  "generateTags parse input ty
     = take 10 (first_occurrences (nounTags (parse input) @ extractTopics (parse input)
                  @ typeTag ty @ categorizeContent (parse input)))"
proof -
  let ?doc = "parse input"
  have t0: "fold (\<lambda>noun tags. if length noun > 2 \<and> length noun < 20
                        then set_add tags (toLowerCase noun) else tags) (doc_nouns ?doc) []
            = first_occurrences (nounTags ?doc)"
    using fold_set_add [of "nounTags ?doc" "[]"]
    by (simp add: fold_noun_tags nounTags_def first_occurrences_Nil)
  show ?thesis
    unfolding generateTags_def Let_def t0 fold_type_tag fold_set_add by simp
qed

lemma first_occurrences_append:
  "\<exists>zs. first_occurrences (xs @ ys) = first_occurrences xs @ zs"
proof (induction ys rule: rev_induct)
  case Nil
  show ?case by simp
next
  case (snoc y ys)
  then obtain zs where zs: "first_occurrences (xs @ ys) = first_occurrences xs @ zs" by blast
  have "first_occurrences (xs @ ys @ [y]) = set_add (first_occurrences (xs @ ys)) y"
    using first_occurrences_snoc [of "xs @ ys" y] by simp
  then show ?case by (auto simp: zs set_add_def)
qed

lemma generateTags_nouns_only:
  assumes "10 \<le> length (first_occurrences (nounTags (parse input)))"
  shows "generateTags parse input ty = take 10 (first_occurrences (nounTags (parse input)))"
proof -
  obtain zs where
    "first_occurrences (nounTags (parse input) @ extractTopics (parse input)
                  @ typeTag ty @ categorizeContent (parse input))
       = first_occurrences (nounTags (parse input)) @ zs"
    using first_occurrences_append by blast
  then show ?thesis using assms by (simp add: generateTags_eq)
qed

text \<open>
  Claim C10, as amended. \<open>generateTags\<close> returns at most 10 tags: the first ten of the
  first occurrences in the sequence of the qualifying nouns (3 to 19 characters, in lower
  case), the topics, the type and the categories. When the text yields ten or more distinct
  qualifying nouns the result is the first ten of those, so the type is returned only if
  it is one of them.
\<close>

theorem C10_generateTags:
  "length (generateTags parse input ty) \<le> 10
   \<and> generateTags parse input ty
       = take 10 (first_occurrences (nounTags (parse input) @ extractTopics (parse input)
                    @ typeTag ty @ categorizeContent (parse input)))
   \<and> (10 \<le> length (first_occurrences (nounTags (parse input))) \<longrightarrow>
        generateTags parse input ty = take 10 (first_occurrences (nounTags (parse input))))"
  using generateTags_eq [of parse input ty] generateTags_nouns_only [of parse input ty]
  by simp

lemma ten_noun_tags:
  "first_occurrences (nounTags (noun_nlp ''Notes'')) = 
     [''temple'', ''museum'', ''journal'', ''mountains'', ''river'', ''bridge'', ''market'',
     ''harbour'', ''garden'', ''tower'']"
  by code_simp

text \<open>
  Claim C10 as stated fails: with ten distinct qualifying nouns, \<open>journal\<close> among them,
  the type \<open>journal\<close> is in the returned list.
\<close>

theorem C10_counterexample:
  "10 \<le> length (first_occurrences (nounTags (noun_nlp ''Notes'')))
   \<and> ''journal'' \<in> set (generateTags noun_nlp ''Notes'' (Some ''journal''))"
  by code_simp

text \<open>The amended claim C10 at ten distinct nouns and the type \<open>diary\<close>.\<close>

theorem C10_witness:
  "10 \<le> length (first_occurrences (nounTags (noun_nlp ''Notes'')))
   \<and> generateTags noun_nlp ''Notes'' (Some ''diary'')
     = [''temple'', ''museum'', ''journal'', ''mountains'', ''river'', ''bridge'', ''market'',
     ''harbour'', ''garden'', ''tower'']"
proof -
  have ten: "10 \<le> length (first_occurrences (nounTags (noun_nlp ''Notes'')))"
    by (simp add: ten_noun_tags)
  then have "generateTags noun_nlp ''Notes'' (Some ''diary'')
               = take 10 (first_occurrences (nounTags (noun_nlp ''Notes'')))"
    using C10_generateTags [of noun_nlp "''Notes''" "Some ''diary''"] by blast
  then show ?thesis using ten by (simp add: ten_noun_tags)
qed

subsection \<open>Snippets\<close>

lemma length_trim: "length (trim s) \<le> length s"
proof -
  have "length (trim s) \<le> length (dropWhile is_space s)"
    unfolding trim_def using length_dropWhile_le [of is_space "rev (dropWhile is_space s)"] by simp
  also have "\<dots> \<le> length s" by (rule length_dropWhile_le)
  finally show ?thesis .
qed

lemma generateSnippet_length: "length (generateSnippet item query) \<le> 153"
  by (auto simp: generateSnippet_def Let_def)

lemma generateSnippet_truncated:
  assumes "length (trim (bestSentence (snippetContent item) query)) > 150"
  shows "generateSnippet item query
           = take 150 (trim (bestSentence (snippetContent item) query)) @ ''...''"
proof -
  have "length (bestSentence (snippetContent item) query) > 150"
    using assms length_trim [of "bestSentence (snippetContent item) query"] by linarith
  then show ?thesis by (simp add: generateSnippet_def Let_def)
qed

lemma snippetContent_description:
  "description item = Some d \<Longrightarrow> d \<noteq> [] \<Longrightarrow> snippetContent item = d"
  by (simp add: snippetContent_def)

text \<open>
  Claim C7. For an item whose description is longer than 150 characters and has a sentence
  in which a word of the query occurs, the snippet has at most 153 characters, and when
  the trimmed best sentence is longer than 150 characters (so that \<open>substring\<close> cuts it)
  the snippet is its first 150 characters followed by \<open>...\<close>.
\<close>

theorem C7_snippet_truncation:
  assumes "description item = Some d" and "length d > 150"
    and "\<exists>sentence \<in> set (split_sentences d).
           0 < countMatches (split_on CHR '' '' (toLowerCase query)) sentence"
  shows "length (generateSnippet item query) \<le> 153
         \<and> (length (trim (bestSentence d query)) > 150 \<longrightarrow>
              generateSnippet item query = take 150 (trim (bestSentence d query)) @ ''...'')"
proof -
  have "d \<noteq> []" using assms(2) by auto
  then have c: "snippetContent item = d"
    using assms(1) by (rule snippetContent_description [rotated])
  show ?thesis
    using generateSnippet_length [of item query] generateSnippet_truncated [of item query]
    unfolding c by blast
qed

lemma river_description: "description river_item = Some long_description"
  by (simp add: river_item_def)

lemma river_length: "length long_description > 150"
  by (simp add: long_description_def)

lemma river_match:
  "\<exists>sentence \<in> set (split_sentences long_description).
     0 < countMatches (split_on CHR '' '' (toLowerCase ''River photos'')) sentence"
  by code_simp

lemma river_cut: "length (trim (bestSentence long_description ''River photos'')) > 150"
  by code_simp

text \<open>Claim C7 at a description of 179 characters whose best sentence has 164.\<close>

theorem C7_witness:
  "length long_description > 150
   \<and> length (generateSnippet river_item ''River photos'') \<le> 153
   \<and> generateSnippet river_item ''River photos''
       = take 150 (trim (bestSentence long_description ''River photos'')) @ ''...''"
  using C7_snippet_truncation [OF river_description river_length river_match] river_cut river_length
  by blast

subsection \<open>Building the index\<close>

lemma update_fresh: "k \<notin> fst ` set al \<Longrightarrow> AList.update k v al = al @ [(k, v)]"
  by (induction al) auto

lemma fold_flexAdd:
  "fold (\<lambda>item idx. flexAdd e idx item) items (Some docs)
     = Some (docs @ filter (\<lambda>item. \<not> flex_add_throws e item) items)"
  by (induction items arbitrary: docs) (auto simp: flexAdd_def)

lemma fold_flexAdd_None: "fold (\<lambda>item idx. flexAdd e idx item) items None = None"
  by (induction items) (auto simp: flexAdd_def)

lemma buildStep_failed: "getAll e s = Inl err \<Longrightarrow> buildStep e s st = st"
  by (simp add: buildStep_def indexStore_def)

lemma buildStep_loaded_fuse:
  "getAll e s = Inr items \<Longrightarrow>
   fuseInstances (buildStep e s st) = AList.update s (map (processItem s) items) (fuseInstances st)"
  by (simp add: buildStep_def indexStore_def Let_def)

lemma buildStep_fuse:
  assumes "s \<notin> fst ` set (fuseInstances st)"
  shows "fuseInstances (buildStep e s st) = fuseInstances st @ loadedStores e [s]"
proof (cases "getAll e s")
  case (Inl err)
  then show ?thesis by (simp add: buildStep_failed loadedStores_def)
next
  case (Inr items)
  then show ?thesis
    using assms by (simp add: buildStep_loaded_fuse update_fresh loadedStores_def)
qed

lemma loadedStores_Cons: "loadedStores e (s # ss) = loadedStores e [s] @ loadedStores e ss"
  by (simp add: loadedStores_def)

lemma loadedStores_keys: "fst ` set (loadedStores e ss) \<subseteq> set ss"
  by (auto simp: loadedStores_def split: sum.splits)

lemma fold_buildStep_fuse:
  assumes "distinct ss" and "set ss \<inter> fst ` set (fuseInstances st) = {}"
  shows "fuseInstances (fold (buildStep e) ss st) = fuseInstances st @ loadedStores e ss"
  using assms
proof (induction ss arbitrary: st)
  case Nil
  show ?case by (simp add: loadedStores_def)
next
  case (Cons s ss)
  have fresh: "s \<notin> fst ` set (fuseInstances st)" using Cons.prems(2) by auto
  have step: "fuseInstances (buildStep e s st) = fuseInstances st @ loadedStores e [s]"
    using fresh by (rule buildStep_fuse)
  have keys: "set ss \<inter> fst ` set (fuseInstances (buildStep e s st)) = {}"
  proof -
    have "fst ` set (loadedStores e [s]) \<subseteq> {s}" using loadedStores_keys [of e "[s]"] by simp
    moreover have "s \<notin> set ss" using Cons.prems(1) by simp
    moreover have "set ss \<inter> fst ` set (fuseInstances st) = {}" using Cons.prems(2) by auto
    ultimately show ?thesis unfolding step by auto
  qed
  have "fuseInstances (fold (buildStep e) ss (buildStep e s st))
          = fuseInstances (buildStep e s st) @ loadedStores e ss"
    using Cons.prems(1) keys by (intro Cons.IH) auto
  then show ?case
    unfolding step using loadedStores_Cons [of e s ss] by simp
qed

lemma distinct_stores: "distinct stores"
  by (simp add: stores_def)


lemma fuse_clearIndex: "fuseInstances (clearIndex st) = []"
  by (simp add: clearIndex_def)


lemma fuse_buildSearchIndex: "fuseInstances (buildSearchIndex e st) = loadedStores e stores"
proof -
  have "fuseInstances (fold (buildStep e) stores (clearIndex st))
          = fuseInstances (clearIndex st) @ loadedStores e stores"
    by (rule fold_buildStep_fuse) (simp_all add: distinct_stores fuse_clearIndex)
  then show ?thesis by (simp add: buildSearchIndex_def fuse_clearIndex)
qed

lemma distinct_loadedStores: "distinct ss \<Longrightarrow> distinct (map fst (loadedStores e ss))"
proof (induction ss)
  case Nil
  show ?case by (simp add: loadedStores_def)
next
  case (Cons s ss)
  have "fst ` set (loadedStores e ss) \<subseteq> set ss" by (rule loadedStores_keys)
  moreover have "fst ` set (loadedStores e [s]) \<subseteq> {s}" using loadedStores_keys [of e "[s]"] by simp
  moreover have "distinct (map fst (loadedStores e [s]))"
    by (simp add: loadedStores_def split: sum.splits)
  ultimately have "distinct (map fst (loadedStores e [s] @ loadedStores e ss))"
    using Cons by auto
  then show ?case
    using loadedStores_Cons [of e s ss] by simp
qed

lemma map_of_loadedStores_failed:
  "getAll e s = Inl err \<Longrightarrow> map_of (loadedStores e ss) s = None"
proof -
  assume f: "getAll e s = Inl err"
  have "s \<notin> fst ` set (loadedStores e ss)"
    using f by (auto simp: loadedStores_def split: sum.splits)
  then show ?thesis by (simp add: map_of_eq_None_iff)
qed

lemma map_of_loadedStores_loaded:
  assumes "distinct ss" "s \<in> set ss" "getAll e s = Inr items"
  shows "map_of (loadedStores e ss) s = Some (map (processItem s) items)"
proof -
  have "(s, map (processItem s) items) \<in> set (loadedStores e ss)"
    using assms(2,3) by (force simp: loadedStores_def)
  then show ?thesis
    using distinct_loadedStores [OF assms(1), of e] by simp
qed



lemma buildStep_docs:
  assumes "\<forall>docs. searchIndex st = Some docs \<longrightarrow> (\<forall>d \<in> set docs. \<exists>items. getAll e (item_type d) = Inr items)"
  shows "\<forall>docs. searchIndex (buildStep e s st) = Some docs \<longrightarrow> (\<forall>d \<in> set docs. \<exists>items. getAll e (item_type d) = Inr items)"
proof (cases "getAll e s")
  case (Inl err)
  then show ?thesis using assms by (simp add: buildStep_failed)
next
  case (Inr items)
  have idx: "searchIndex (buildStep e s st)
               = fold (\<lambda>item idx. flexAdd e idx item) (map (processItem s) items) (searchIndex st)"
    using Inr by (simp add: buildStep_def indexStore_def Let_def)
  show ?thesis
  proof (cases "searchIndex st")
    case None
    then show ?thesis by (simp add: idx fold_flexAdd_None)
  next
    case (Some docs0)
    have "\<forall>d \<in> set docs0. \<exists>items. getAll e (item_type d) = Inr items"
      using assms Some by simp
    moreover have "\<forall>d \<in> set (map (processItem s) items). \<exists>items. getAll e (item_type d) = Inr items"
      using Inr by (simp add: processItem_def)
    ultimately show ?thesis
      by (auto simp: idx Some fold_flexAdd)
  qed
qed

lemma fold_buildStep_docs:
  assumes "\<forall>docs. searchIndex st = Some docs \<longrightarrow> (\<forall>d \<in> set docs. \<exists>items. getAll e (item_type d) = Inr items)"
  shows "\<forall>docs. searchIndex (fold (buildStep e) ss st) = Some docs \<longrightarrow> (\<forall>d \<in> set docs. \<exists>items. getAll e (item_type d) = Inr items)"
  using assms
proof (induction ss arbitrary: st)
  case Nil
  then show ?case by simp
next
  case (Cons s ss)
  have "\<forall>docs. searchIndex (fold (buildStep e) ss (buildStep e s st)) = Some docs \<longrightarrow>
          (\<forall>d \<in> set docs. \<exists>items. getAll e (item_type d) = Inr items)"
    by (rule Cons.IH) (rule buildStep_docs [OF Cons.prems])
  then show ?case by simp
qed

lemma docs_buildSearchIndex:
  assumes "searchIndex (buildSearchIndex e st) = Some docs" and "d \<in> set docs"
  shows "\<exists>items. getAll e (item_type d) = Inr items"
proof -
  have "\<forall>docs. searchIndex (clearIndex st) = Some docs \<longrightarrow>
          (\<forall>d \<in> set docs. \<exists>items. getAll e (item_type d) = Inr items)"
    by (simp add: clearIndex_def)
  then have "\<forall>docs. searchIndex (fold (buildStep e) stores (clearIndex st)) = Some docs \<longrightarrow>
          (\<forall>d \<in> set docs. \<exists>items. getAll e (item_type d) = Inr items)"
    by (rule fold_buildStep_docs)
  moreover have "searchIndex (fold (buildStep e) stores (clearIndex st)) = Some docs"
    using assms(1) by (simp add: buildSearchIndex_def)
  ultimately show ?thesis using assms(2) by blast
qed

text \<open>
  Claim C5. When the read of a store throws, the body of the \<open>try\<close> for that store fails
  with the error, and the build still runs to its end (it records the time of the build):
  the failing store has no Fuse instance and no document in the document index, and every
  store whose read succeeds has a Fuse instance that holds all of its items.
\<close>

theorem C5_rebuild_resilience:
  assumes "failing \<in> set stores" and "getAll e failing = Inl err"
  shows "indexStore e st failing = Inl err
         \<and> lastIndexUpdate (buildSearchIndex e st) = now e
         \<and> map_of (fuseInstances (buildSearchIndex e st)) failing = None
         \<and> (\<forall>docs. searchIndex (buildSearchIndex e st) = Some docs \<longrightarrow>
               (\<forall>d \<in> set docs. item_type d \<noteq> failing))
         \<and> (\<forall>s \<in> set stores. \<forall>items. getAll e s = Inr items \<longrightarrow>
               map_of (fuseInstances (buildSearchIndex e st)) s = Some (map (processItem s) items))"
proof (intro conjI)
  show "indexStore e st failing = Inl err"
    using assms(2) by (simp add: indexStore_def)
  show "lastIndexUpdate (buildSearchIndex e st) = now e"
    by (simp add: buildSearchIndex_def)
  show "map_of (fuseInstances (buildSearchIndex e st)) failing = None"
    using assms(2) by (simp add: fuse_buildSearchIndex map_of_loadedStores_failed)
  show "\<forall>docs. searchIndex (buildSearchIndex e st) = Some docs \<longrightarrow>
          (\<forall>d \<in> set docs. item_type d \<noteq> failing)"
    using docs_buildSearchIndex [of e st] assms(2) by fastforce
  show "\<forall>s \<in> set stores. \<forall>items. getAll e s = Inr items \<longrightarrow>
          map_of (fuseInstances (buildSearchIndex e st)) s = Some (map (processItem s) items)"
    using map_of_loadedStores_loaded [OF distinct_stores, of _ e]
    by (simp add: fuse_buildSearchIndex)
qed

lemma demo_expenses: "getAll demo_env ''expenses'' = Inl (Error ''read failed'')"
  by (simp add: demo_env_def demo_getAll_def)

lemma demo_journal: "getAll demo_env ''journalEntries'' = Inr [river_item]"
  by (simp add: demo_env_def demo_getAll_def)

lemma expenses_store: "''expenses'' \<in> set stores"
  by (simp add: stores_def)

lemma journal_store: "''journalEntries'' \<in> set stores"
  by (simp add: stores_def)

text \<open>Claim C5 at the example database, whose store of expenses cannot be read.\<close>

theorem C5_witness:
  "getAll demo_env ''expenses'' = Inl (Error ''read failed'')
   \<and> map_of (fuseInstances (buildSearchIndex demo_env initial_state)) ''expenses'' = None
   \<and> map_of (fuseInstances (buildSearchIndex demo_env initial_state)) ''journalEntries''
        = Some [processItem ''journalEntries'' river_item]"
  using C5_rebuild_resilience [OF expenses_store demo_expenses, of initial_state]
    demo_journal journal_store demo_expenses
  by fastforce








subsection \<open>Semantic search without entities\<close>

lemma fold_type_location:
  "filter_location (fold (\<lambda>(keyword, ty) f. if P keyword then f\<lparr>filter_type := Some ty\<rparr> else f) tbl f)
     = filter_location f"
  by (induction tbl arbitrary: f) auto

lemma fold_type_person:
  "filter_person (fold (\<lambda>(keyword, ty) f. if P keyword then f\<lparr>filter_type := Some ty\<rparr> else f) tbl f)
     = filter_person f"
  by (induction tbl arbitrary: f) auto

lemma extractFilters_location:
  "filter_location (extractFilters clk doc query)
     = (if extractPlaces doc = [] then None else Some (hd (extractPlaces doc)))"
  by (simp add: extractFilters_def Let_def fold_type_location)

lemma extractFilters_person:
  "filter_person (extractFilters clk doc query)
     = (if extractPeople doc = [] then None else Some (hd (extractPeople doc)))"
  by (simp add: extractFilters_def Let_def fold_type_person)

lemma searchByFilters_none:
  "filter_location fs = None \<Longrightarrow> filter_person fs = None \<Longrightarrow> searchByFilters srch fs st = Some ([], st)"
  by (simp add: searchByFilters_def truthy_def)

lemma sortByScore_Nil: "sortByScore [] = []"
  by (simp add: sortByScore_def)

lemma semanticSearch_no_entities:
  assumes "people (entities (parseSearchQuery (clock e) (nlp e) query)) = []"
    and "places (entities (parseSearchQuery (clock e) (nlp e) query)) = []"
    and "filter_location (filters (parseSearchQuery (clock e) (nlp e) query)) = None"
    and "filter_person (filters (parseSearchQuery (clock e) (nlp e) query)) = None"
  shows "semanticSearch n e query modules st = Some ([], st)"
  using assms
  by (simp add: semanticSearch_def semanticSearchBody_def Let_def searchByFilters_none sortByScore_Nil)

text \<open>
  Claim C9. For a query whose entities have no people and no places and whose filters have
  no location and no person, \<open>semanticSearch\<close> returns the empty list, and leaves the
  service as it is, whatever the index and the modules: it calls no search at all.
\<close>

theorem C9_semanticSearch_empty:
  assumes "people (entities (parseSearchQuery (clock e) (nlp e) query)) = []"
    and "places (entities (parseSearchQuery (clock e) (nlp e) query)) = []"
    and "filter_location (filters (parseSearchQuery (clock e) (nlp e) query)) = None"
    and "filter_person (filters (parseSearchQuery (clock e) (nlp e) query)) = None"
  shows "semanticSearch n e query modules st = Some ([], st)"
  using assms by (rule semanticSearch_no_entities)

lemma quiet_entities:
  "people (entities (parseSearchQuery (clock demo_env) (nlp demo_env) query)) = []
   \<and> places (entities (parseSearchQuery (clock demo_env) (nlp demo_env) query)) = []
   \<and> filter_location (filters (parseSearchQuery (clock demo_env) (nlp demo_env) query)) = None
   \<and> filter_person (filters (parseSearchQuery (clock demo_env) (nlp demo_env) query)) = None"
  by (simp add: parseSearchQuery_def extractEntities_def extractFilters_location extractFilters_person
        extractPeople_def extractPlaces_def demo_env_def quiet_nlp_def Let_def)

text \<open>Claim C9 at the quiet parser, on the built example index.\<close>

theorem C9_witness:
  "semanticSearch 1 demo_env ''met in porto'' (Some [''people'']) built_state = Some ([], built_state)"
proof -
  note q = quiet_entities [of "''met in porto''"]
  show ?thesis
    by (rule C9_semanticSearch_empty) (simp_all only: q)
qed

subsection \<open>The enrichment loop\<close>

lemma enhancedSearch_failed:
  "fetch_failed (fetch query ctxt) \<Longrightarrow> enhancedSearch fetch query ctxt = Some (substitute query)"
  by (auto simp: fetch_failed_def enhancedSearch_def split: fetch_outcome.splits)

lemma enhanceWithAI_cases:
  assumes "enhanceWithAI srch fetch query searchResults st = Some (rs, st')"
  shows "rs = searchResults
         \<or> (length rs > length searchResults \<and> (\<exists>q. srch q no_options st = Some (rs, st')))"
  using assms
  by (auto simp: enhanceWithAI_def split: if_splits option.splits)

lemma enhanceWithAI_failed:
  assumes "fetch_failed (fetch query (take 3 searchResults))"
    and "length query > 8" and "length searchResults < 5"
  shows "enhanceWithAI srch fetch query searchResults st
           = (case srch query no_options st of
                None \<Rightarrow> None
              | Some (enhancedResults, st') \<Rightarrow>
                  if length enhancedResults > length searchResults
                  then Some (enhancedResults, st') else Some (searchResults, st'))"
  using assms
  by (simp add: enhanceWithAI_def enhancedSearch_failed substitute_def)

text \<open>
  Claim C6, as amended. When the enrichment call fails, the client swallows the failure and
  returns the substitute response, whose search terms are the original query; the loop
  (when it runs: a query of more than 8 characters and fewer than 5 results) then searches
  again with the original query, and keeps the original results unless that search
  returns strictly more. Whatever the call does, the results of the loop are the original
  ones or those of a search that returned strictly more.
\<close>

theorem C6_enrichment_loop:
  "(fetch_failed (fetch query ctxt) \<longrightarrow> enhancedSearch fetch query ctxt = Some (substitute query))
   \<and> (fetch_failed (fetch query (take 3 searchResults)) \<and> length query > 8 \<and> length searchResults < 5 \<longrightarrow>
        enhanceWithAI srch fetch query searchResults st
           = (case srch query no_options st of
                None \<Rightarrow> None
              | Some (enhancedResults, st') \<Rightarrow>
                  if length enhancedResults > length searchResults
                  then Some (enhancedResults, st') else Some (searchResults, st')))
   \<and> (\<forall>rs st'. enhanceWithAI srch fetch query searchResults st = Some (rs, st') \<longrightarrow>
         rs = searchResults
         \<or> (length rs > length searchResults \<and> (\<exists>q. srch q no_options st = Some (rs, st'))))"
  using enhancedSearch_failed [of fetch query ctxt]
    enhanceWithAI_failed [of fetch query searchResults srch st]
    enhanceWithAI_cases [of srch fetch query searchResults st]
  by blast

lemma demo_semantic: "semanticSearch 1 demo_env ''met in porto'' None built_state = Some ([], built_state)"
  by (rule semanticSearch_no_entities) (simp_all only: quiet_entities [of "''met in porto''"])

lemma demo_research:
  "map_option (map (item_id \<circ> res_item) \<circ> fst) (search 1 demo_env ''met in porto'' no_options built_state)
     = Some [''p1'']"
  by code_simp

text \<open>
  Claim C6 as stated fails: for \<open>met in porto\<close> the search box takes the semantic search,
  which finds nothing; the enrichment call is rejected; and the results shown are not the
  original empty list but the hit of the search run on the substitute's terms.
\<close>

theorem C6_counterexample:
  "chooseMode ''met in porto'' = semantic
   \<and> semanticSearch 1 demo_env ''met in porto'' None built_state = Some ([], built_state)
   \<and> fetch_failed (reject_fetch ''met in porto'' [])
   \<and> map_option (map (item_id \<circ> res_item) \<circ> fst)
        (handleSearch 1 demo_env reject_fetch no_basic_hits ''met in porto'' built_state)
       = Some [''p1'']"
proof (intro conjI)
  show m: "chooseMode ''met in porto'' = semantic" by code_simp
  show "semanticSearch 1 demo_env ''met in porto'' None built_state = Some ([], built_state)"
    by (rule demo_semantic)
  show f: "fetch_failed (reject_fetch ''met in porto'' [])"
    by (simp add: fetch_failed_def reject_fetch_def)
  have t: "\<not> length (trim ''met in porto'') < 2" by code_simp
  have "handleSearch 1 demo_env reject_fetch no_basic_hits ''met in porto'' built_state
          = enhanceWithAI (search 1 demo_env) reject_fetch ''met in porto'' [] built_state"
    by (simp only: handleSearch_def t m demo_semantic if_False searchMode.case option.case prod.case)
  also have "\<dots> = (case search 1 demo_env ''met in porto'' no_options built_state of
                None \<Rightarrow> None
              | Some (enhancedResults, st') \<Rightarrow>
                  if length enhancedResults > length ([] :: EnhancedSearchResult list)
                  then Some (enhancedResults, st') else Some ([], st'))"
    by (rule enhanceWithAI_failed) (simp_all add: fetch_failed_def reject_fetch_def)
  finally show "map_option (map (item_id \<circ> res_item) \<circ> fst)
        (handleSearch 1 demo_env reject_fetch no_basic_hits ''met in porto'' built_state)
       = Some [''p1'']"
    using demo_research by (auto split: option.splits if_splits)
qed

text \<open>The amended claim C6 at a rejected call, with no results before it.\<close>

theorem C6_witness:
  "enhancedSearch reject_fetch ''met in porto'' [] = Some (substitute ''met in porto'')
   \<and> enhanceWithAI (search 1 demo_env) reject_fetch ''met in porto'' [] built_state
       = (case search 1 demo_env ''met in porto'' no_options built_state of
                None \<Rightarrow> None
              | Some (enhancedResults, st') \<Rightarrow>
                  if length enhancedResults > length ([] :: EnhancedSearchResult list)
                  then Some (enhancedResults, st') else Some ([], st'))"
proof -
  have f: "fetch_failed (reject_fetch ''met in porto'' [])"
    by (simp add: fetch_failed_def reject_fetch_def)
  have l: "length ''met in porto'' > 8" by simp
  show ?thesis
    using C6_enrichment_loop [of reject_fetch "''met in porto''" "[]" "[]" "search 1 demo_env" built_state] f l
    by simp
qed

subsection \<open>Result maps\<close>

lemma set_update_subset: "set (AList.update k v al) \<subseteq> insert (k, v) (set al)"
  by (induction al) auto






















subsection \<open>The search\<close>



lemma index_ok_initial: "index_ok initial_state"
  by (simp add: index_ok_def initial_state_def)

lemma search_Suc:
  "search (Suc n) e query options st
     = (case searchWithNLP (search n e) (parseSearchQuery (clock e) (nlp e) query)
               (opt_modules options) (refreshIfStale e st) of
          None \<Rightarrow> None
        | Some (nlpResults, st2) \<Rightarrow>
            Some (slice0 (sortByScore (map snd (fold mergeStep nlpResults
                    (fuzzyTier e (refreshIfStale e st) (opt_modules options) (optLimit options)
                       (optThreshold options) query)))) (optLimit options), st2))"
  by (simp add: searchBody_def Let_def)



text \<open>The example index and the query \<open>river\<close>, evaluated.\<close>

lemma demo_river_search:
  "search (Suc 0) demo_env ''river'' no_options built_state = Some ([river_hit, maria_hit], built_state)"
  by code_simp


lemma maria_fuzzy:
  "maria_hit \<in> snd ` set (fuzzyTier demo_env (refreshIfStale demo_env built_state) (opt_modules no_options)
                              (optLimit no_options) (optThreshold no_options) ''river'')"
  by code_simp




lemma optLimit_default: "optLimit no_options = 20"
  by (simp add: optLimit_def no_options_def)

lemma optThreshold_default: "optThreshold no_options = dbl 0.3"
  by (simp add: optThreshold_def no_options_def)


lemma search_returns_only:
  "search n e query options st = Some r \<Longrightarrow> returnsWithin n e query"
proof (induction n arbitrary: query options st r)
  case 0
  then show ?case by simp
next
  case (Suc n)
  let ?pq = "parseSearchQuery (clock e) (nlp e) query"
  let ?call = "searchWithNLP (search n e) ?pq (opt_modules options) (refreshIfStale e st)"
  show ?case
  proof (cases "searchTerms ?pq = []")
    case True
    then show ?thesis by simp
  next
    case False
    let ?inner = "search n e (join_space (searchTerms ?pq))
         \<lparr> opt_modules = opt_modules options, opt_limit = Some 10, opt_threshold = None \<rparr>
         (refreshIfStale e st)"
    have "?call \<noteq> None"
      using Suc.prems unfolding search_Suc by (cases ?call) simp_all
    then have "?inner \<noteq> None"
      using False by (cases ?inner) (simp_all add: searchWithNLP_def)
    then obtain x where "?inner = Some x" by (cases ?inner) auto
    then have "returnsWithin n e (join_space (searchTerms ?pq))" by (rule Suc.IH)
    then show ?thesis by simp
  qed
qed








subsection \<open>The threshold of the fuzzy tier\<close>

lemma fuzzyStep_inv:
  assumes "\<forall>(k, r) \<in> set results. Q r"
    and "threshold \<le> dbl (1 - distance result) \<Longrightarrow>
         Q \<lparr> res_item = fr_item result, score = dbl (dbl (1 - distance result) * dbl 0.8),
             matchedFields = matchKeys result,
             snippet = Some (generateSnippet (fr_item result) query) \<rparr>"
  shows "\<forall>(k, r) \<in> set (fuzzyStep query threshold moduleType result results). Q r"
proof (cases "threshold \<le> dbl (1 - distance result)
              \<and> absent_or_lower results (moduleType @ ''-'' @ item_id (fr_item result)) (dbl (1 - distance result))")
  case True
  let ?entry = "\<lparr> res_item = fr_item result, score = dbl (dbl (1 - distance result) * dbl 0.8),
             matchedFields = matchKeys result,
             snippet = Some (generateSnippet (fr_item result) query) \<rparr>"
  have step: "fuzzyStep query threshold moduleType result results
          = AList.update (moduleType @ ''-'' @ item_id (fr_item result)) ?entry results"
    using True by (simp add: fuzzyStep_def Let_def)
  have "Q ?entry" using True assms(2) by simp
  then show ?thesis
    unfolding step
    using assms(1) set_update_subset [of "moduleType @ ''-'' @ item_id (fr_item result)" ?entry results]
    by auto
next
  case False
  then have "fuzzyStep query threshold moduleType result results = results"
    by (auto simp: fuzzyStep_def Let_def)
  then show ?thesis using assms(1) by simp
qed

lemma fold_fuzzyStep_inv:
  assumes "\<forall>(k, r) \<in> set results. Q r"
    and "\<forall>result \<in> set frs. threshold \<le> dbl (1 - distance result) \<longrightarrow>
         Q \<lparr> res_item = fr_item result, score = dbl (dbl (1 - distance result) * dbl 0.8),
             matchedFields = matchKeys result,
             snippet = Some (generateSnippet (fr_item result) query) \<rparr>"
  shows "\<forall>(k, r) \<in> set (fold (fuzzyStep query threshold moduleType) frs results). Q r"
  using assms
proof (induction frs arbitrary: results)
  case Nil
  then show ?case by simp
next
  case (Cons fr frs)
  have "\<forall>(k, r) \<in> set (fuzzyStep query threshold moduleType fr results). Q r"
    using Cons.prems by (intro fuzzyStep_inv) auto
  then show ?case using Cons.IH Cons.prems(2) by simp
qed

lemma fold_instances_hits:
  assumes "\<forall>(k, r) \<in> set results. fuzzyHit e st query limit threshold r"
    and "set insts \<subseteq> set (fuseInstances st)"
  shows "\<forall>(k, r) \<in> set (fold (\<lambda>(moduleType, fuseInstance) results.
             if (case modules of None \<Rightarrow> False | Some ms \<Rightarrow> moduleType \<notin> set ms) then results
             else fold (fuzzyStep query threshold moduleType)
                    (fuse_search e fuseInstance query limit) results) insts results).
           fuzzyHit e st query limit threshold r"
  using assms
proof (induction insts arbitrary: results)
  case Nil
  then show ?case by simp
next
  case (Cons inst insts)
  obtain s items where inst: "inst = (s, items)" by (cases inst)
  have mem: "(s, items) \<in> set (fuseInstances st)" using Cons.prems(2) by (simp add: inst)
  have new: "\<forall>result \<in> set (fuse_search e items query limit). threshold \<le> dbl (1 - distance result) \<longrightarrow>
         fuzzyHit e st query limit threshold
           \<lparr> res_item = fr_item result, score = dbl (dbl (1 - distance result) * dbl 0.8),
             matchedFields = matchKeys result,
             snippet = Some (generateSnippet (fr_item result) query) \<rparr>"
    using mem unfolding fuzzyHit_def by force
  have step: "\<forall>(k, r) \<in> set (fold (fuzzyStep query threshold s) (fuse_search e items query limit) results).
                fuzzyHit e st query limit threshold r"
    using Cons.prems(1) new by (rule fold_fuzzyStep_inv)
  have rest: "set insts \<subseteq> set (fuseInstances st)" using Cons.prems(2) by simp
  show ?case
    using Cons.IH [OF step rest] Cons.IH [OF Cons.prems(1) rest]
    by (simp add: inst)
qed

lemma fuzzyTier_hits:
  "(k, r) \<in> set (fuzzyTier e st modules limit threshold query) \<Longrightarrow> fuzzyHit e st query limit threshold r"
proof -
  have "\<forall>(k, r) \<in> set (fuzzyTier e st modules limit threshold query). fuzzyHit e st query limit threshold r"
    unfolding fuzzyTier_def by (rule fold_instances_hits) simp_all
  then show "(k, r) \<in> set (fuzzyTier e st modules limit threshold query) \<Longrightarrow> fuzzyHit e st query limit threshold r"
    by auto
qed

lemma fuzzyHit_score:
  assumes "fuzzyHit e st query limit threshold r"
  shows "dbl (threshold * dbl 0.8) \<le> score r"
proof -
  obtain s where s: "score r = dbl (s * dbl 0.8)" "threshold \<le> s"
    using assms by (auto simp: fuzzyHit_def)
  have "0 \<le> dbl 0.8" by (rule dbl_nonneg) simp
  then have "threshold * dbl 0.8 \<le> s * dbl 0.8"
    using s(2) by (rule mult_right_mono [rotated])
  then show ?thesis unfolding s(1) by (rule dbl_mono)
qed

text \<open>A hit at distance 0.9 does not pass the threshold 0.1: its similarity is the double
  0.09999999999999998.\<close>

lemma fuzzyStep_rounds:
  "fuzzyStep query (dbl 0.1) moduleType
     \<lparr> fr_item = item, fr_score = Some (dbl 0.9), fr_matches = None \<rparr> results = results"
  using similarity_rounding by (simp add: fuzzyStep_def distance_def Let_def)

text \<open>
  Claim C2, as amended. An entry of the fuzzy tier, as it stands in the result map that
  the returned list is drawn from, descends from a hit whose similarity, 1 minus the
  distance of the library, is at least the threshold: the comparison is made before the
  scaling. The score of the entry is 0.8 times that similarity, so it is at least 0.8 times
  the threshold (each product a double).
\<close>

theorem C2_fuzzy_threshold:
  assumes "r \<in> snd ` set (fuzzyTier e st modules limit threshold query)"
  shows "fuzzyHit e st query limit threshold r \<and> dbl (threshold * dbl 0.8) \<le> score r"
proof -
  obtain p where p: "p \<in> set (fuzzyTier e st modules limit threshold query)" "r = snd p"
    using assms by (rule imageE)
  obtain k v where pk: "p = (k, v)" by (cases p)
  have "(k, r) \<in> set (fuzzyTier e st modules limit threshold query)"
    using p pk by simp
  then have h: "fuzzyHit e st query limit threshold r"
    by (rule fuzzyTier_hits)
  then show ?thesis using fuzzyHit_score by blast
qed

lemma maria_score: "score maria_hit = 5044031582654955 / 18014398509481984"
  by code_simp

text \<open>
  Claim C2 as stated fails: a hit at distance 0.65 has the similarity 0.35, which passes the
  default threshold 0.3, and is returned with the score 0.27999999999999997.
\<close>

theorem C2_counterexample:
  "search (Suc 0) demo_env ''river'' no_options built_state = Some ([river_hit, maria_hit], built_state)
   \<and> maria_hit \<in> snd ` set (fuzzyTier demo_env (refreshIfStale demo_env built_state) (opt_modules no_options)
                              (optLimit no_options) (optThreshold no_options) ''river'')
   \<and> optThreshold no_options = 5404319552844595 / 18014398509481984
   \<and> score maria_hit = 5044031582654955 / 18014398509481984
   \<and> \<not> optThreshold no_options \<le> score maria_hit"
  using demo_river_search maria_fuzzy
  by (simp add: optThreshold_default dbl_0_3 maria_score)

text \<open>The amended claim C2 at that entry.\<close>

theorem C2_witness:
  "fuzzyHit demo_env (refreshIfStale demo_env built_state) ''river'' 20 (dbl 0.3) maria_hit
   \<and> dbl (dbl 0.3 * dbl 0.8) \<le> score maria_hit"
  using C2_fuzzy_threshold [OF maria_fuzzy]
  by (simp add: optLimit_default optThreshold_default)

subsection \<open>Nested calls\<close>

text \<open>
  A search that returns within \<open>n\<close> nested calls returns the same within more, so the
  results above do not depend on the bound. With a parser that finds a noun of more than
  two characters in every text, every call makes another one and \<open>search\<close> never
  returns.
\<close>

lemma searchWithNLP_mono:
  assumes "\<And>q opts s r. f q opts s = Some r \<Longrightarrow> g q opts s = Some r"
    and "searchWithNLP f parsedQuery modules st = Some r"
  shows "searchWithNLP g parsedQuery modules st = Some r"
proof (cases "length (searchTerms parsedQuery) > 0")
  case False
  then show ?thesis using assms(2) by (simp add: searchWithNLP_def)
next
  case True
  let ?q = "join_space (searchTerms parsedQuery)"
  let ?o = "\<lparr> opt_modules = modules, opt_limit = Some 10, opt_threshold = None \<rparr>"
  obtain x where fx: "f ?q ?o st = Some x"
    using assms(2) True by (cases "f ?q ?o st") (simp_all add: searchWithNLP_def)
  then have "g ?q ?o st = Some x" by (rule assms(1))
  then show ?thesis using assms(2) True fx by (simp add: searchWithNLP_def)
qed

lemma searchBody_mono:
  assumes "\<And>q opts s r. f q opts s = Some r \<Longrightarrow> g q opts s = Some r"
    and "searchBody f e query options st = Some r"
  shows "searchBody g e query options st = Some r"
proof -
  let ?call = "\<lambda>h. searchWithNLP h (parseSearchQuery (clock e) (nlp e) query) (opt_modules options)
                      (refreshIfStale e st)"
  obtain x where fx: "?call f = Some x"
    using assms(2) by (cases "?call f") (simp_all add: searchBody_def Let_def)
  have "?call g = Some x" using assms(1) fx by (rule searchWithNLP_mono)
  then show ?thesis using assms(2) fx by (simp add: searchBody_def Let_def)
qed

lemma search_more_fuel:
  "search n e query options st = Some r \<Longrightarrow> search (Suc n) e query options st = Some r"
proof (induction n arbitrary: query options st r)
  case 0
  then show ?case by simp
next
  case (Suc n)
  have "searchBody (search (Suc n) e) e query options st = Some r"
  proof (rule searchBody_mono)
    show "search n e q opts s = Some x \<Longrightarrow> search (Suc n) e q opts s = Some x" for q opts s x
      by (rule Suc.IH)
    show "searchBody (search n e) e query options st = Some r"
      using Suc.prems by simp
  qed
  then show ?case by simp
qed

lemma noun_terms: "searchTerms (parseSearchQuery clk noun_nlp query) \<noteq> []"
proof -
  have "extractSearchTerms (noun_nlp query) = extractSearchTerms (noun_nlp [])"
    by (simp add: extractSearchTerms_def noun_nlp_def quiet_nlp_def)
  moreover have "extractSearchTerms (noun_nlp []) \<noteq> []" by code_simp
  ultimately show ?thesis by (simp add: parseSearchQuery_def Let_def)
qed

lemma search_never_returns: "search n noun_env query options st = None"
proof (induction n arbitrary: query options st)
  case 0
  show ?case by simp
next
  case (Suc n)
  have "searchTerms (parseSearchQuery (clock noun_env) (nlp noun_env) query) \<noteq> []"
    using noun_terms [of "clock noun_env" query] by (simp add: noun_env_def)
  then have "searchWithNLP (search n noun_env) (parseSearchQuery (clock noun_env) (nlp noun_env) query)
               (opt_modules options) (refreshIfStale noun_env st) = None"
    by (simp add: searchWithNLP_def Suc.IH)
  then show ?case by (simp add: searchBody_def Let_def)
qed

end
